theory Spec2Isabelle
  imports Main "HOL-Library.AList" "HOL-Library.Sublist"
begin

section \<open>JavaScript values\<close>

text \<open>
  The values \<^verbatim>\<open>JSON.parse\<close> produces and the code of \<^verbatim>\<open>server.js\<close> handles. A string is a
  list of 8-bit characters, standing for a JavaScript string whose code units are below 256.
  A number is an integer: fractional numbers are outside the model, and an integer is
  rendered as a string only when it is a safe integer (see \<open>js_toString\<close>). An object is
  the list of its own properties in insertion order; a property is read with \<open>map_of\<close>.
\<close>

datatype jsval =
    JUndefined
  | JNull
  | JBool bool
  | JNum int
  | JStr string
  | JArr "jsval list"
  | JObj "(string \<times> jsval) list"

text \<open>
  The exceptions of the program. \<open>Unmodelled\<close> is none of them: it marks an input about
  which the model says nothing.
\<close>

datatype error = TypeError | RangeError | Unmodelled

text \<open>Truthiness, as \<^verbatim>\<open>if (x)\<close>, \<^verbatim>\<open>x || y\<close>, \<^verbatim>\<open>x ? a : b\<close> and \<^verbatim>\<open>!!x\<close> read it.\<close>

fun truthy :: "jsval \<Rightarrow> bool" where
  "truthy JUndefined = False"
| "truthy JNull = False"
| "truthy (JBool b) = b"
| "truthy (JNum n) = (n \<noteq> 0)"
| "truthy (JStr s) = (s \<noteq> [])"
| "truthy (JArr xs) = True"
| "truthy (JObj kvs) = True"

definition js_or :: "jsval \<Rightarrow> jsval \<Rightarrow> jsval" where
  \<comment> \<open>\<^verbatim>\<open>a || b\<close>\<close>
  "js_or a b = (if truthy a then a else b)"

definition nullish :: "jsval \<Rightarrow> jsval \<Rightarrow> jsval" where
  \<comment> \<open>\<^verbatim>\<open>a ?? b\<close>\<close>
  "nullish a b = (if a = JUndefined \<or> a = JNull then b else a)"

text \<open>
  \<^verbatim>\<open>x?.k\<close> for the property names the code reads (\<^verbatim>\<open>vdl2\<close>, \<^verbatim>\<open>avlc\<close>, \<^verbatim>\<open>src\<close>,
  \<^verbatim>\<open>addr\<close>, \<^verbatim>\<open>acars\<close>, \<^verbatim>\<open>flight\<close>, \<^verbatim>\<open>t\<close>, \<^verbatim>\<open>sec\<close>, \<^verbatim>\<open>db\<close>, \<^verbatim>\<open>ownop\<close>,
  \<^verbatim>\<open>icaotype\<close>): none of them is a property of a string, a number, a boolean or an array, so
  only an object answers with something else than \<^verbatim>\<open>undefined\<close>.
\<close>

fun get :: "jsval \<Rightarrow> string \<Rightarrow> jsval" where
  "get (JObj kvs) k = (case map_of kvs k of Some v \<Rightarrow> v | None \<Rightarrow> JUndefined)"
| "get v k = JUndefined"

subsection \<open>Decimal rendering\<close>

definition digit_char :: "nat \<Rightarrow> char" where
  "digit_char d = ''0123456789'' ! d"

fun show_nat :: "nat \<Rightarrow> string" where
  "show_nat n = (if n < 10 then [digit_char n] else show_nat (n div 10) @ [digit_char (n mod 10)])"

definition show_int :: "int \<Rightarrow> string" where
  \<comment> \<open>the decimal digits of an integer, as a template literal or \<^verbatim>\<open>toString\<close> gives them for
      a safe integer\<close>
  "show_int n = (if n < 0 then CHR ''-'' # show_nat (nat (- n)) else show_nat (nat n))"

subsection \<open>Conversion to a string\<close>

definition join_comma :: "string list \<Rightarrow> string" where
  "join_comma ss = (case ss of [] \<Rightarrow> [] | s # rest \<Rightarrow> s @ concat (map (\<lambda>r. CHR '','' # r) rest))"

definition MAX_SAFE_INTEGER :: int where
  "MAX_SAFE_INTEGER = 9007199254740991"

fun sequence_err :: "(error + 'a) list \<Rightarrow> error + 'a list" where
  "sequence_err [] = Inr []"
| "sequence_err (Inl err # _) = Inl err"
| "sequence_err (Inr x # xs) = (case sequence_err xs of Inl err \<Rightarrow> Inl err | Inr ys \<Rightarrow> Inr (x # ys))"

text \<open>
  \<^verbatim>\<open>v.toString()\<close>. On \<^verbatim>\<open>null\<close> and \<^verbatim>\<open>undefined\<close> the call is a \<^verbatim>\<open>TypeError\<close>. A parsed
  object inherits \<^verbatim>\<open>Object.prototype.toString\<close> unless it has an own property of that name, whose
  value is never callable: then the call is a \<^verbatim>\<open>TypeError\<close> too. An array joins its elements
  with commas, \<^verbatim>\<open>null\<close> and \<^verbatim>\<open>undefined\<close> elements as empty strings. A number up to
  \<^verbatim>\<open>Number.MAX_SAFE_INTEGER\<close> in absolute value prints its decimal digits. Beyond it the
  digits JavaScript prints are those of the nearest double, padded with zeros or in exponent
  form (\<^verbatim>\<open>1e+21\<close>): the model does not compute them and answers \<open>Unmodelled\<close>.
\<close>

fun js_toString :: "jsval \<Rightarrow> error + string" where
  "js_toString JUndefined = Inl TypeError"
| "js_toString JNull = Inl TypeError"
| "js_toString (JBool b) = Inr (if b then ''true'' else ''false'')"
| "js_toString (JNum n) = (if \<bar>n\<bar> \<le> MAX_SAFE_INTEGER then Inr (show_int n) else Inl Unmodelled)"
| "js_toString (JStr s) = Inr s"
| "js_toString (JObj kvs) = (if map_of kvs ''toString'' = None then Inr ''[object Object]'' else Inl TypeError)"
| "js_toString (JArr xs) =
     (case sequence_err (map (\<lambda>x. if x = JNull \<or> x = JUndefined then Inr [] else js_toString x) xs) of
        Inl err \<Rightarrow> Inl err
      | Inr ss \<Rightarrow> Inr (join_comma ss))"

section \<open>Utilities\<close>

definition js_space :: "char \<Rightarrow> bool" where
  \<comment> \<open>white space and line terminators below 256\<close>
  "js_space c = (c \<in> set [CHR 0x09, CHR 0x0A, CHR 0x0B, CHR 0x0C, CHR 0x0D, CHR 0x20, CHR 0xA0])"

definition trim :: "string \<Rightarrow> string" where
  "trim s = rev (dropWhile js_space (rev (dropWhile js_space s)))"

definition is_hex :: "char \<Rightarrow> bool" where
  \<comment> \<open>the class \<^verbatim>\<open>[0-9a-fA-F]\<close>\<close>
  "is_hex c = (c \<in> set ''0123456789abcdefABCDEF'')"

definition is_lower_hex :: "char \<Rightarrow> bool" where
  \<comment> \<open>the class \<^verbatim>\<open>[0-9a-f]\<close>\<close>
  "is_lower_hex c = (c \<in> set ''0123456789abcdef'')"

definition lower_char :: "char \<Rightarrow> char" where
  \<comment> \<open>the ASCII capitals by table, the capitals of Latin-1 (192 to 222, but 215) by their offset\<close>
  "lower_char c =
     (case map_of (zip ''ABCDEFGHIJKLMNOPQRSTUVWXYZ'' ''abcdefghijklmnopqrstuvwxyz'') c of
        Some l \<Rightarrow> l
      | None \<Rightarrow>
          (let n = (of_char c :: nat)
           in if 192 \<le> n \<and> n \<le> 222 \<and> n \<noteq> 215 then char_of (n + 32) else c))"

definition toLowerCase :: "string \<Rightarrow> string" where
  "toLowerCase s = map lower_char s"

definition padStart :: "nat \<Rightarrow> char \<Rightarrow> string \<Rightarrow> string" where
  \<comment> \<open>\<^verbatim>\<open>s.padStart(n, c)\<close> for a one-character filler: nothing is cut when \<open>s\<close> is longer\<close>
  "padStart n c s = replicate (n - length s) c @ s"

definition normalizeHex :: "jsval \<Rightarrow> error + string" where
  "normalizeHex raw =
     (case js_toString (nullish raw (JStr [])) of
        Inl err \<Rightarrow> Inl err
      | Inr s \<Rightarrow> Inr (toLowerCase (padStart 6 (CHR ''0'') (filter is_hex (trim s)))))"

text \<open>
  \<^verbatim>\<open>new Date()\<close> as the local calendar reads it: \<^verbatim>\<open>getMonth\<close> counts from 0.
\<close>

record jsdate =
  getFullYear :: int
  getMonth :: nat
  getDate :: nat

definition pad2 :: "nat \<Rightarrow> string" where
  "pad2 n = padStart 2 (CHR ''0'') (show_nat n)"

definition dateStamp :: "jsdate \<Rightarrow> string" where
  "dateStamp d = show_int (getFullYear d) @ ''-'' @ pad2 (getMonth d + 1) @ ''-'' @ pad2 (getDate d)"

definition LOG_DIR :: string where "LOG_DIR = ''/var/log/vdl2''"
definition LOG_PREFIX :: string where "LOG_PREFIX = ''received''"
definition KEEP_DAYS :: int where "KEEP_DAYS = 7"
definition UNKNOWN_DIR :: string where "UNKNOWN_DIR = ''/var/www/localhost/logs''"
definition DEBUG_LOOKUPS :: bool where "DEBUG_LOOKUPS = True"

definition path_join :: "string \<Rightarrow> string \<Rightarrow> string" where
  \<comment> \<open>\<^verbatim>\<open>path.join(dir, name)\<close> for a file name without separator\<close>
  "path_join dir name = dir @ ''/'' @ name"

definition logPathFor :: "string \<Rightarrow> string" where
  "logPathFor dStr = path_join LOG_DIR (LOG_PREFIX @ ''-'' @ dStr @ ''.jsonl'')"

definition LATEST_LINK :: string where
  "LATEST_LINK = path_join LOG_DIR (LOG_PREFIX @ ''-latest.jsonl'')"

section \<open>The file system\<close>

text \<open>
  A file is the list of the lines appended to it, each line kept as the data it serialises:
  a line of a daily log is \<^verbatim>\<open>JSON.stringify(outObj) + "\n"\<close>, a line of the unknown-key
  ledger is \<^verbatim>\<open>`${iso} ${hex} - not found in DB\n`\<close>. The disk maps a path to a regular file
  or to a symbolic link and is read with \<open>map_of\<close>. Every call can fail: the environment
  says which calls throw (\<open>fault\<close>), besides the failures the disk itself decides (removing
  a path that is not there, linking at a path that is). An append follows symbolic links to
  the file they name, up to 40 of them as the operating system does, and creates that file
  when it is not there; removing and linking act on the path itself. The target of a link
  is an absolute path, as the program writes it.
\<close>

datatype line = LogLine jsval | UnknownLine string string

datatype node = File "line list" | Symlink string

type_synonym disk = "(string \<times> node) list"

datatype fsop = AppendFileSync string | UnlinkSync string | SymlinkSync string | ReaddirSync string

definition lines_at :: "disk \<Rightarrow> string \<Rightarrow> line list" where
  \<comment> \<open>the lines of the regular file at a path; none where there is no such file\<close>
  "lines_at d p = (case map_of d p of Some (File ls) \<Rightarrow> ls | _ \<Rightarrow> [])"

fun resolve_link :: "nat \<Rightarrow> disk \<Rightarrow> string \<Rightarrow> string option" where
  \<comment> \<open>the path reached from \<open>p\<close> through at most \<open>k\<close> links; \<open>None\<close> when there are more\<close>
  "resolve_link 0 d p = (case map_of d p of Some (Symlink t) \<Rightarrow> None | _ \<Rightarrow> Some p)"
| "resolve_link (Suc k) d p = (case map_of d p of Some (Symlink t) \<Rightarrow> resolve_link k d t | _ \<Rightarrow> Some p)"

definition appendFileSync :: "(fsop \<Rightarrow> bool) \<Rightarrow> string \<Rightarrow> line list \<Rightarrow> disk \<Rightarrow> disk option" where
  "appendFileSync fault p ls d =
     (if fault (AppendFileSync p) then None
      else case resolve_link 40 d p of
             None \<Rightarrow> None
           | Some q \<Rightarrow> Some (AList.update q (File (lines_at d q @ ls)) d))"

definition unlinkSync :: "(fsop \<Rightarrow> bool) \<Rightarrow> string \<Rightarrow> disk \<Rightarrow> disk option" where
  "unlinkSync fault p d =
     (if fault (UnlinkSync p) \<or> map_of d p = None then None else Some (AList.delete p d))"

definition symlinkSync :: "(fsop \<Rightarrow> bool) \<Rightarrow> string \<Rightarrow> string \<Rightarrow> disk \<Rightarrow> disk option" where
  "symlinkSync fault target p d =
     (if fault (SymlinkSync p) \<or> map_of d p \<noteq> None then None
      else Some (AList.update p (Symlink target) d))"

definition entry_name :: "string \<Rightarrow> string \<Rightarrow> string option" where
  \<comment> \<open>the name of the path \<open>p\<close> when it lies directly in the directory \<open>dir\<close>\<close>
  "entry_name dir p =
     (let name = drop (length dir + 1) p
      in if take (length dir + 1) p = dir @ ''/'' \<and> name \<noteq> [] \<and> CHR ''/'' \<notin> set name
         then Some name else None)"

definition readdirSync :: "(fsop \<Rightarrow> bool) \<Rightarrow> string \<Rightarrow> disk \<Rightarrow> string list option" where
  "readdirSync fault dir d =
     (if fault (ReaddirSync dir) then None
      else Some (remdups (List.map_filter (\<lambda>e. entry_name dir (fst e)) d)))"

section \<open>State and environment\<close>

record bucket =
  time :: string
  count :: nat

record client =
  readyState :: nat
  received :: "jsval list"

datatype diag =
    Rotated string
  | FailedUnknown
  | InvalidJSON
  | DbMatch string
  | NoDbMatch string
  | DbLookupError string
  | NoSrcAddr
  | FailedDailyLog

text \<open>
  The module's variables, the disk, the subscribers, and two traces: \<open>queries\<close>, the keys
  passed to \<^verbatim>\<open>stmtLookup.get\<close>, and \<open>console\<close>, what was written to the console.
  A \<^verbatim>\<open>Set\<close> or \<^verbatim>\<open>Map\<close> of values is the list of its entries in insertion order: a string,
  number or boolean is found in it by its value, an array or object never, since every
  message brings objects of its own.
\<close>

record state =
  currentDate :: string
  SAVE_FILE :: string
  disk :: disk
  unknownCache :: "string set"
  lookupSeen :: "string set"
  totalPackets :: nat
  uniqueHex :: "string set"
  uniqueFlights :: "jsval list"
  topOwners :: "(jsval \<times> nat) list"
  topModels :: "(jsval \<times> nat) list"
  timeline :: "bucket list"
  clients :: "client list"
  queries :: "string list"
  console :: "diag list"

text \<open>
  What one run of a callback gets from outside: every reading of the clock, the built-ins
  \<^verbatim>\<open>JSON.parse\<close> (\<open>None\<close>: it throws), \<^verbatim>\<open>Date.prototype.toISOString\<close> on a valid time value
  and the conversion of a string to a number (\<open>None\<close>: \<^verbatim>\<open>NaN\<close>), the prepared statement
  (\<open>None\<close>: it throws; \<^verbatim>\<open>undefined\<close> when there is no row, else the row as an object), and
  the file-system calls that fail.
\<close>

record env =
  rotate_date :: jsdate
  prune_now :: int
  unknown_date :: jsdate
  unknown_iso :: string
  receive_iso :: string
  stats_iso :: string
  JSON_parse :: "string \<Rightarrow> jsval option"
  toISOString :: "int \<Rightarrow> string"
  StringToNumber :: "string \<Rightarrow> int option"
  stmtLookup_get :: "string \<Rightarrow> jsval option"
  fault :: "fsop \<Rightarrow> bool"

definition say :: "diag \<Rightarrow> state \<Rightarrow> state" where
  "say m s = s\<lparr>console := console s @ [m]\<rparr>"

section \<open>Daily rotation\<close>

definition updateLatestSymlink :: "env \<Rightarrow> state \<Rightarrow> state" where
  "updateLatestSymlink e s =
     (let d1 = (case unlinkSync (fault e) LATEST_LINK (disk s) of None \<Rightarrow> disk s | Some d \<Rightarrow> d)
      in case symlinkSync (fault e) (SAVE_FILE s) LATEST_LINK d1 of
           None \<Rightarrow> s\<lparr>disk := d1\<rparr>
         | Some d2 \<Rightarrow> s\<lparr>disk := d2\<rparr>)"

definition is_digit :: "char \<Rightarrow> bool" where
  "is_digit c = (c \<in> set ''0123456789'')"

definition digit_val :: "char \<Rightarrow> nat" where
  "digit_val c = of_char c - 48"

definition digits_val :: "string \<Rightarrow> nat" where
  "digits_val cs = foldl (\<lambda>n c. 10 * n + digit_val c) 0 cs"

fun date_shape :: "string \<Rightarrow> bool" where
  \<comment> \<open>the group \<^verbatim>\<open>\d{4}-\d{2}-\d{2}\<close>\<close>
  "date_shape [y1, y2, y3, y4, a, m1, m2, b, d1, d2] =
     (is_digit y1 \<and> is_digit y2 \<and> is_digit y3 \<and> is_digit y4 \<and> a = CHR ''-'' \<and>
      is_digit m1 \<and> is_digit m2 \<and> b = CHR ''-'' \<and> is_digit d1 \<and> is_digit d2)"
| "date_shape _ = False"

definition date_match :: "string \<Rightarrow> string option" where
  \<comment> \<open>\<^verbatim>\<open>f.match(/(\d{4}-\d{2}-\d{2})\.jsonl$/)\<close>: the group, when the name ends so\<close>
  "date_match f =
     (let n = length f; m = take 10 (drop (n - 16) f)
      in if 16 \<le> n \<and> date_shape m \<and> drop (n - 6) f = ''.jsonl'' then Some m else None)"

definition days_from_civil :: "int \<Rightarrow> int \<Rightarrow> int \<Rightarrow> int" where
  \<comment> \<open>days from 1970-01-01 to the day \<open>d\<close> of month \<open>m\<close> (1 to 12) of year \<open>y\<close>, Gregorian\<close>
  "days_from_civil y m d =
     (let y' = (if m \<le> 2 then y - 1 else y);
          era = y' div 400;
          yoe = y' - era * 400;
          doy = (153 * (if m > 2 then m - 3 else m + 9) + 2) div 5 + d - 1;
          doe = yoe * 365 + yoe div 4 - yoe div 100 + doy
      in era * 146097 + doe - 719468)"

definition utc_midnight :: "string \<Rightarrow> int option" where
  \<comment> \<open>\<^verbatim>\<open>new Date(`${m}T00:00:00Z`).getTime()\<close> for \<open>m\<close> of the shape above; \<open>None\<close> is \<^verbatim>\<open>NaN\<close>.
      The engine takes a day from 01 to 31 in every month and counts on into the next one.\<close>
  "utc_midnight m =
     (let y = int (digits_val (take 4 m));
          mo = int (digits_val (take 2 (drop 5 m)));
          d = int (digits_val (take 2 (drop 8 m)))
      in if 1 \<le> mo \<and> mo \<le> 12 \<and> 1 \<le> d \<and> d \<le> 31
         then Some (days_from_civil y mo d * 86400000) else None)"

definition prunable :: "int \<Rightarrow> string \<Rightarrow> bool" where
  \<comment> \<open>the tests of the loop body of \<^verbatim>\<open>pruneOldLogs\<close> on one directory entry\<close>
  "prunable cutoff f =
     (if \<not> prefix (LOG_PREFIX @ ''-'') f \<or> \<not> suffix ''.jsonl'' f then False
      else case date_match f of
             None \<Rightarrow> False
           | Some m \<Rightarrow> (case utc_midnight m of None \<Rightarrow> False | Some t \<Rightarrow> t < cutoff))"

fun prune_loop :: "(fsop \<Rightarrow> bool) \<Rightarrow> int \<Rightarrow> string list \<Rightarrow> disk \<Rightarrow> disk" where
  "prune_loop flt cutoff [] d = d"
| "prune_loop flt cutoff (f # names) d =
     (if prunable cutoff f
      then (case unlinkSync flt (path_join LOG_DIR f) d of
              None \<Rightarrow> d
            | Some d' \<Rightarrow> prune_loop flt cutoff names d')
      else prune_loop flt cutoff names d)"

definition pruneOldLogs :: "env \<Rightarrow> state \<Rightarrow> state" where
  "pruneOldLogs e s =
     (let cutoff = prune_now e - KEEP_DAYS * 86400000
      in case readdirSync (fault e) LOG_DIR (disk s) of
           None \<Rightarrow> s
         | Some names \<Rightarrow> s\<lparr>disk := prune_loop (fault e) cutoff names (disk s)\<rparr>)"

definition rotateIfNeeded :: "env \<Rightarrow> state \<Rightarrow> state" where
  "rotateIfNeeded e s =
     (let today = dateStamp (rotate_date e)
      in if today \<noteq> currentDate s
         then let s1 = s\<lparr>currentDate := today, SAVE_FILE := logPathFor today\<rparr>;
                  s2 = (case appendFileSync (fault e) (SAVE_FILE s1) [] (disk s1) of
                          None \<Rightarrow> s1
                        | Some d \<Rightarrow> s1\<lparr>disk := d\<rparr>);
                  s3 = updateLatestSymlink e s2;
                  s4 = pruneOldLogs e s3
              in say (Rotated (SAVE_FILE s4)) s4
         else s)"

section \<open>Unknown ICAO logging\<close>

definition logUnknownHex :: "env \<Rightarrow> string \<Rightarrow> state \<Rightarrow> state" where
  "logUnknownHex e hex s =
     (if hex = [] then s
      else if hex \<in> unknownCache s then s
      else let s1 = s\<lparr>unknownCache := insert hex (unknownCache s)\<rparr>;
               today = dateStamp (unknown_date e);
               p = path_join UNKNOWN_DIR (''unknown_hex_'' @ today @ ''.log'');
               ln = UnknownLine (unknown_iso e) hex
           in case appendFileSync (fault e) p [ln] (disk s1) of
                None \<Rightarrow> say FailedUnknown s1
              | Some d \<Rightarrow> s1\<lparr>disk := d\<rparr>)"

section \<open>Events aggregation\<close>

definition by_identity :: "jsval \<Rightarrow> bool" where
  \<comment> \<open>arrays and objects are compared by identity\<close>
  "by_identity v = (case v of JArr xs \<Rightarrow> True | JObj kvs \<Rightarrow> True | _ \<Rightarrow> False)"

definition set_add :: "jsval list \<Rightarrow> jsval \<Rightarrow> jsval list" where
  \<comment> \<open>\<^verbatim>\<open>set.add(v)\<close>\<close>
  "set_add vs v = (if by_identity v \<or> v \<notin> set vs then vs @ [v] else vs)"

definition incMap :: "(jsval \<times> nat) list \<Rightarrow> jsval \<Rightarrow> (jsval \<times> nat) list" where
  \<comment> \<open>\<^verbatim>\<open>map.set(key, (map.get(key) || 0) + 1)\<close>\<close>
  "incMap m k =
     (if by_identity k then m @ [(k, 1)]
      else AList.update k ((case map_of m k of None \<Rightarrow> 0 | Some c \<Rightarrow> c) + 1) m)"

definition bump_timeline :: "string \<Rightarrow> bucket list \<Rightarrow> bucket list" where
  \<comment> \<open>the per-minute bucket of \<^verbatim>\<open>updateStats\<close>: the last one when its time is \<open>key\<close>, else a new
      one pushed, the first one shifted out beyond 1440, and the count of that bucket raised\<close>
  "bump_timeline key tl0 =
     (if tl0 \<noteq> [] \<and> time (last tl0) = key
      then butlast tl0 @ [(last tl0)\<lparr>count := count (last tl0) + 1\<rparr>]
      else let pushed = tl0 @ [\<lparr>time = key, count = 0\<rparr>];
               kept = (if length pushed > 1440 then tl pushed else pushed)
           in butlast kept @ [(last kept)\<lparr>count := count (last kept) + 1\<rparr>])"

definition updateStats :: "env \<Rightarrow> jsval \<Rightarrow> state \<Rightarrow> error option \<times> state" where
  "updateStats e pkt s =
     (let s1 = s\<lparr>totalPackets := totalPackets s + 1\<rparr>;
          addr = get (get (get (get pkt ''vdl2'') ''avlc'') ''src'') ''addr''
      in case (if truthy addr then normalizeHex addr else Inr []) of
           Inl err \<Rightarrow> (Some err, s1)
         | Inr hex \<Rightarrow>
             let flight = js_or (get (get (get (get pkt ''vdl2'') ''avlc'') ''acars'') ''flight'') (JStr []);
                 owner = js_or (get (get pkt ''db'') ''ownop'') (JStr ''Unknown'');
                 model = js_or (get (get pkt ''db'') ''icaotype'') (JStr ''Unknown'');
                 s2 = (if hex \<noteq> [] then s1\<lparr>uniqueHex := insert hex (uniqueHex s1)\<rparr> else s1);
                 s3 = (if truthy flight then s2\<lparr>uniqueFlights := set_add (uniqueFlights s2) flight\<rparr> else s2);
                 s4 = s3\<lparr>topOwners := incMap (topOwners s3) owner\<rparr>;
                 s5 = s4\<lparr>topModels := incMap (topModels s4) model\<rparr>;
                 key = take 16 (stats_iso e)
             in (None, s5\<lparr>timeline := bump_timeline key (timeline s5)\<rparr>))"

definition slice_from :: "int \<Rightarrow> 'a list \<Rightarrow> 'a list" where
  \<comment> \<open>\<^verbatim>\<open>xs.slice(start)\<close>: a negative start counts from the end\<close>
  "slice_from start xs =
     (let len = int (length xs);
          k = (if start < 0 then max (len + start) 0 else min start len)
      in drop (nat k) xs)"

definition get_timeline :: "state \<Rightarrow> bucket list" where
  \<comment> \<open>the answer of \<^verbatim>\<open>GET /api/events/timeline\<close>\<close>
  "get_timeline s = slice_from (- 120) (timeline s)"

section \<open>UDP, enrich, log, WebSocket\<close>

definition row_fields :: "jsval \<Rightarrow> jsval" where
  \<comment> \<open>the object built from a row that was found\<close>
  "row_fields row = JObj
     [(''reg'', js_or (get row ''reg'') (JStr [])),
      (''icaotype'', js_or (get row ''icaotype'') (JStr [])),
      (''year'', js_or (get row ''year'') (JStr [])),
      (''manufacturer'', js_or (get row ''manufacturer'') (JStr [])),
      (''model'', js_or (get row ''model'') (JStr [])),
      (''ownop'', js_or (get row ''ownop'') (JStr [])),
      (''short_type'', js_or (get row ''short_type'') (JStr [])),
      (''mil'', JBool (truthy (get row ''mil''))),
      (''faa_pia'', JBool (truthy (get row ''faa_pia''))),
      (''faa_ladd'', JBool (truthy (get row ''faa_ladd'')))]"

definition note_lookup :: "diag \<Rightarrow> string \<Rightarrow> state \<Rightarrow> state" where
  \<comment> \<open>one console line per key and runtime, under \<^verbatim>\<open>DEBUG_LOOKUPS\<close>\<close>
  "note_lookup m hex s =
     (if DEBUG_LOOKUPS \<and> hex \<notin> lookupSeen s
      then say m (s\<lparr>lookupSeen := insert hex (lookupSeen s)\<rparr>) else s)"

definition enrich :: "env \<Rightarrow> string \<Rightarrow> state \<Rightarrow> jsval \<times> state" where
  \<comment> \<open>the block \<^verbatim>\<open>let enriched = {}; if (hex) { try { ... } catch { ... } } else { ... }\<close>\<close>
  "enrich e hex s =
     (if hex \<noteq> []
      then let s1 = s\<lparr>queries := queries s @ [hex]\<rparr>
           in case stmtLookup_get e hex of
                None \<Rightarrow> (JObj [], say (DbLookupError hex) s1)
              | Some row \<Rightarrow>
                  if truthy row
                  then (row_fields row, note_lookup (DbMatch hex) hex s1)
                  else (JObj [], logUnknownHex e hex (note_lookup (NoDbMatch hex) hex s1))
      else (JObj [], if DEBUG_LOOKUPS then say NoSrcAddr s else s))"

definition ToNumber :: "env \<Rightarrow> jsval \<Rightarrow> error + int option" where
  \<comment> \<open>the operand of \<^verbatim>\<open>*\<close> as a number; \<open>Inr None\<close> is \<^verbatim>\<open>NaN\<close>\<close>
  "ToNumber e v =
     (case v of
        JUndefined \<Rightarrow> Inr None
      | JNull \<Rightarrow> Inr (Some 0)
      | JBool b \<Rightarrow> Inr (Some (if b then 1 else 0))
      | JNum n \<Rightarrow> Inr (Some n)
      | JStr str \<Rightarrow> Inr (StringToNumber e str)
      | _ \<Rightarrow> (case js_toString v of Inl err \<Rightarrow> Inl err | Inr str \<Rightarrow> Inr (StringToNumber e str)))"

definition timestamp_iso :: "env \<Rightarrow> jsval \<Rightarrow> error + string" where
  \<comment> \<open>\<^verbatim>\<open>vdl2?.t?.sec ? new Date(vdl2.t.sec * 1000).toISOString() : new Date().toISOString()\<close>;
      \<^verbatim>\<open>toISOString\<close> throws a \<^verbatim>\<open>RangeError\<close> on a time value that is \<^verbatim>\<open>NaN\<close> or beyond
      8.64e15 milliseconds\<close>
  "timestamp_iso e vdl2 =
     (let sec = get (get vdl2 ''t'') ''sec''
      in if truthy sec
         then (case ToNumber e sec of
                 Inl err \<Rightarrow> Inl err
               | Inr None \<Rightarrow> Inl RangeError
               | Inr (Some n) \<Rightarrow>
                   if \<bar>n * 1000\<bar> \<le> 8640000000000000 then Inr (toISOString e (n * 1000))
                   else Inl RangeError)
         else Inr (receive_iso e))"

fun own_props :: "jsval \<Rightarrow> (string \<times> jsval) list" where
  \<comment> \<open>what \<^verbatim>\<open>{...v}\<close> copies: the properties of an object, the indices of an array or string\<close>
  "own_props (JObj kvs) = kvs"
| "own_props (JArr xs) = zip (map show_nat [0..<length xs]) xs"
| "own_props (JStr str) = zip (map show_nat [0..<length str]) (map (\<lambda>c. JStr [c]) str)"
| "own_props v = []"

definition assemble :: "jsval \<Rightarrow> jsval \<Rightarrow> string \<Rightarrow> jsval" where
  \<comment> \<open>\<^verbatim>\<open>{ ...parsed, db: enriched, timestamp_iso: ... }\<close>\<close>
  "assemble parsed enriched ts =
     JObj (AList.update ''timestamp_iso'' (JStr ts) (AList.update ''db'' enriched (own_props parsed)))"

definition broadcast :: "jsval \<Rightarrow> state \<Rightarrow> state" where
  "broadcast payload s =
     s\<lparr>clients := map (\<lambda>c. if readyState c = 1 then c\<lparr>received := received c @ [payload]\<rparr> else c)
                      (clients s)\<rparr>"

definition vdl2_of :: "jsval \<Rightarrow> jsval" where
  \<comment> \<open>\<^verbatim>\<open>parsed?.vdl2 || {}\<close>\<close>
  "vdl2_of parsed = js_or (get parsed ''vdl2'') (JObj [])"

definition rawHex_of :: "jsval \<Rightarrow> jsval" where
  \<comment> \<open>\<^verbatim>\<open>vdl2?.avlc?.src?.addr ?? ""\<close>\<close>
  "rawHex_of vdl2 = nullish (get (get (get vdl2 ''avlc'') ''src'') ''addr'') (JStr [])"

definition persist :: "env \<Rightarrow> jsval \<Rightarrow> state \<Rightarrow> state" where
  \<comment> \<open>the append to the daily JSONL, its failure caught and reported\<close>
  "persist e outObj s =
     (case appendFileSync (fault e) (SAVE_FILE s) [LogLine outObj] (disk s) of
        None \<Rightarrow> say FailedDailyLog s
      | Some d \<Rightarrow> s\<lparr>disk := d\<rparr>)"

text \<open>
  The listener of \<^verbatim>\<open>udp.on("message")\<close>. The first component of the result is the exception
  that leaves the listener, if one does, with the state as it was when it was thrown.
\<close>

definition handler :: "env \<Rightarrow> string \<Rightarrow> state \<Rightarrow> error option \<times> state" where
  "handler e msg s =
     (let s0 = rotateIfNeeded e s
      in case JSON_parse e (trim msg) of
           None \<Rightarrow> (None, say InvalidJSON s0)
         | Some parsed \<Rightarrow>
             (let vdl2 = vdl2_of parsed;
                  rawHex = rawHex_of vdl2
              in case normalizeHex rawHex of
                   Inl err \<Rightarrow> (Some err, s0)
                 | Inr hex \<Rightarrow>
                     (let enriched = fst (enrich e hex s0);
                          s1 = snd (enrich e hex s0)
                      in case timestamp_iso e vdl2 of
                           Inl err \<Rightarrow> (Some err, s1)
                         | Inr ts \<Rightarrow>
                             (let outObj = assemble parsed enriched ts;
                                  s2 = persist e outObj s1;
                                  r = updateStats e outObj s2
                              in case fst r of
                                   Some err \<Rightarrow> (Some err, snd r)
                                 | None \<Rightarrow> (None, broadcast outObj (snd r))))))"

section \<open>The process\<close>

definition init :: "jsdate \<Rightarrow> disk \<Rightarrow> client list \<Rightarrow> state" where
  \<comment> \<open>the module's variables after start-up on date \<open>d\<close>, over the disk as it was found\<close>
  "init d disk0 cs =
     \<lparr>currentDate = dateStamp d, SAVE_FILE = logPathFor (dateStamp d), disk = disk0,
      unknownCache = {}, lookupSeen = {}, totalPackets = 0, uniqueHex = {}, uniqueFlights = [],
      topOwners = [], topModels = [], timeline = [], clients = cs, queries = [], console = []\<rparr>"

datatype event = Message env string | Timer env

fun step :: "event \<Rightarrow> state \<Rightarrow> error option \<times> state" where
  "step (Message e msg) s = handler e msg s"
| "step (Timer e) s = (None, rotateIfNeeded e s)"


text \<open>An exception that leaves a callback ends the process: the events after it do not run.\<close>

fun run :: "event list \<Rightarrow> state \<Rightarrow> error option \<times> state" where
  "run [] s = (None, s)"
| "run (ev # evs) s =
     (let r = step ev s
      in case fst r of
           Some err \<Rightarrow> (Some err, snd r)
         | None \<Rightarrow> run evs (snd r))"

section \<open>What the specification asks, as predicates\<close>

definition matches_hex6 :: "string \<Rightarrow> bool" where
  \<comment> \<open>the pattern \<^verbatim>\<open>^[0-9a-f]{6}$\<close>\<close>
  "matches_hex6 h = (length h = 6 \<and> list_all is_lower_hex h)"

definition minute_index :: "string \<Rightarrow> int" where
  \<comment> \<open>the minutes from 1970-01-01T00:00 to a time written \<^verbatim>\<open>YYYY-MM-DDTHH:MM\<close>, UTC\<close>
  "minute_index k =
     days_from_civil (int (digits_val (take 4 k))) (int (digits_val (take 2 (drop 5 k))))
       (int (digits_val (take 2 (drop 8 k)))) * 1440
     + int (digits_val (take 2 (drop 11 k))) * 60 + int (digits_val (take 2 (drop 14 k)))"

definition within_minutes :: "int \<Rightarrow> string \<Rightarrow> bucket list \<Rightarrow> bool" where
  \<comment> \<open>every bucket is at most \<open>n\<close> minutes older than the query\<close>
  "within_minutes n query_iso bs =
     list_all (\<lambda>b. minute_index query_iso - minute_index (time b) \<le> n) bs"

definition in_dir :: "string \<Rightarrow> string \<Rightarrow> bool" where
  \<comment> \<open>the path \<open>p\<close> lies in or below the directory \<open>dir\<close>\<close>
  "in_dir dir p = (take (length dir + 1) p = dir @ ''/'')"

definition ledger_file :: "string \<Rightarrow> string" where
  \<comment> \<open>the unknown-key ledger of the day \<open>day\<close>, as \<^verbatim>\<open>logUnknownHex\<close> names it\<close>
  "ledger_file day = path_join UNKNOWN_DIR (''unknown_hex_'' @ day @ ''.log'')"

definition unknown_lines :: "string \<Rightarrow> line list \<Rightarrow> line list" where
  \<comment> \<open>the ledger lines for the key \<open>hex\<close> among the lines of a file\<close>
  "unknown_lines hex ls = filter (\<lambda>l. case l of UnknownLine ts h \<Rightarrow> h = hex | LogLine m \<Rightarrow> False) ls"




definition old_log :: "int \<Rightarrow> string \<Rightarrow> bool" where
  \<comment> \<open>the path names an entry of the log directory that \<^verbatim>\<open>pruneOldLogs\<close> removes\<close>
  "old_log cutoff p = (case entry_name LOG_DIR p of None \<Rightarrow> False | Some f \<Rightarrow> prunable cutoff f)"

definition older_than_window :: "int \<Rightarrow> string \<Rightarrow> bool" where
  \<comment> \<open>the date \<open>d\<close> (its midnight, UTC) lies more than the retention window before the instant
      \<open>midnight\<close>, the start of the current local day\<close>
  "older_than_window midnight d =
     (case utc_midnight d of None \<Rightarrow> False | Some t \<Rightarrow> t < midnight - KEEP_DAYS * 86400000)"


section \<open>Concrete inputs\<close>

definition day3 :: jsdate where
  "day3 = \<lparr>getFullYear = 2024, getMonth = 0, getDate = 3\<rparr>"

text \<open>
  An environment on 2024-01-03, ten seconds after midnight UTC, in which no file-system call
  fails and the reference table has no row. Its \<open>JSON_parse\<close> is \<^verbatim>\<open>JSON.parse\<close> on the texts
  used below.
\<close>

definition empty_datagram :: string where
  \<open>empty_datagram = ''{}''\<close>

definition garbage_datagram :: string where
  \<open>garbage_datagram = ''{"vdl2":{"avlc":{"src":{"addr":"zz"}}}}''\<close>

definition garbage_parsed :: jsval where
  "garbage_parsed = JObj [(''vdl2'', JObj [(''avlc'', JObj [(''src'', JObj [(''addr'', JStr ''zz'')])])])]"

definition abcdef_datagram :: string where
  \<open>abcdef_datagram = ''{"vdl2":{"avlc":{"src":{"addr":"ABCDEF"}}}}''\<close>

definition abcdef_parsed :: jsval where
  "abcdef_parsed = JObj [(''vdl2'', JObj [(''avlc'', JObj [(''src'', JObj [(''addr'', JStr ''ABCDEF'')])])])]"

definition late_datagram :: string where
  \<open>late_datagram = ''{"vdl2":{"t":{"sec":9000000000000}}}''\<close>

definition late_parsed :: jsval where
  "late_parsed = JObj [(''vdl2'', JObj [(''t'', JObj [(''sec'', JNum 9000000000000)])])]"

definition quiet_env :: env where
  "quiet_env =
     \<lparr>rotate_date = day3,
      prune_now = 1704240010000,
      unknown_date = day3,
      unknown_iso = ''2024-01-03T00:00:10.000Z'',
      receive_iso = ''2024-01-03T00:00:10.000Z'',
      stats_iso = ''2024-01-03T00:00:10.000Z'',
      JSON_parse = map_of
        [(empty_datagram, JObj []), (garbage_datagram, garbage_parsed),
         (abcdef_datagram, abcdef_parsed), (late_datagram, late_parsed)],
      toISOString = (\<lambda>ms. ''1970-01-01T00:00:00.000Z''),
      StringToNumber = (\<lambda>str. None),
      stmtLookup_get = (\<lambda>hex. Some JUndefined),
      fault = (\<lambda>op. False)\<rparr>"

definition day3_state :: state where
  \<comment> \<open>a process just started on 2024-01-03, over an empty disk, with one subscriber ready\<close>
  "day3_state = init day3 [] [\<lparr>readyState = 1, received = []\<rparr>]"



text \<open>
  A server on UTC, ten seconds after the midnight that starts 2024-01-10 (1704844800000 ms),
  for a process that ran on 2024-01-09 and has the logs of 2024-01-03 and 2024-01-04 on disk.
\<close>

definition midnight_env :: env where
  "midnight_env = quiet_env\<lparr>rotate_date := \<lparr>getFullYear = 2024, getMonth = 0, getDate = 10\<rparr>,
                             prune_now := 1704844810000\<rparr>"

definition day9_state :: state where
  "day9_state = init \<lparr>getFullYear = 2024, getMonth = 0, getDate = 9\<rparr>
     [(logPathFor ''2024-01-03'', File [LogLine (JObj [])]),
      (logPathFor ''2024-01-04'', File [LogLine (JObj [])])] []"

text \<open>
  The same date change on a host one hour east of UTC: ten seconds after its local midnight
  the clock reads 2024-01-09T23:00:10Z.
\<close>

definition east_env :: env where
  "east_env = midnight_env\<lparr>prune_now := 1704841210000\<rparr>"



definition full_timeline :: "bucket list" where
  \<comment> \<open>1440 buckets, one per minute of 2024-01-02, named here by the number of the minute\<close>
  "full_timeline = map (\<lambda>i. \<lparr>time = show_nat i, count = 1\<rparr>) [0..<1440]"

text \<open>
  A process started on 2024-01-02, with one line in that day's log and one subscriber ready.
\<close>

definition day2_state :: state where
  "day2_state = init \<lparr>getFullYear = 2024, getMonth = 0, getDate = 2\<rparr>
     [(logPathFor ''2024-01-02'', File [LogLine (JObj [])])] [\<lparr>readyState = 1, received = []\<rparr>]"

section \<open>What each operation leaves alone\<close>

lemma resolve_link_not_link:
  "\<forall>t. map_of d p \<noteq> Some (Symlink t) \<Longrightarrow> resolve_link k d p = Some p"
  by (cases k) (auto split: option.splits node.splits)

lemma resolve_link_target:
  "resolve_link k d p = Some q \<Longrightarrow> \<forall>t. map_of d q \<noteq> Some (Symlink t)"
  by (induction k arbitrary: p) (auto split: option.splits node.splits)

lemma appendFileSync_Some:
  assumes "appendFileSync flt p ls d = Some d'"
  shows "\<exists>q. resolve_link 40 d p = Some q \<and> map_of d' = (map_of d)(q \<mapsto> File (lines_at d q @ ls))"
  using assms
  by (auto simp: appendFileSync_def update_conv' split: if_splits option.splits)

lemma appendFileSync_direct:
  assumes "\<not> flt (AppendFileSync p)" "\<forall>t. map_of d p \<noteq> Some (Symlink t)"
  shows "\<exists>d'. appendFileSync flt p ls d = Some d' \<and> map_of d' = (map_of d)(p \<mapsto> File (lines_at d p @ ls))"
  using assms by (simp add: appendFileSync_def resolve_link_not_link update_conv')

lemma append_keeps_links:
  assumes "appendFileSync flt p ls d = Some d'"
  shows "map_of d' r = Some (Symlink t) \<longleftrightarrow> map_of d r = Some (Symlink t)"
proof -
  obtain q where q: "resolve_link 40 d p = Some q" "map_of d' = (map_of d)(q \<mapsto> File (lines_at d q @ ls))"
    using appendFileSync_Some [OF assms] by blast
  show ?thesis
    using resolve_link_target [OF q(1)] by (simp add: q(2))
qed

lemma unlinkSync_Some:
  assumes "unlinkSync flt p d = Some d'"
  shows "map_of d' = (map_of d)(p := None)"
  using assms by (auto simp: unlinkSync_def delete_conv' split: if_splits)

lemma symlinkSync_Some:
  assumes "symlinkSync flt t p d = Some d'"
  shows "map_of d' = (map_of d)(p \<mapsto> Symlink t)"
  using assms by (auto simp: symlinkSync_def update_conv' split: if_splits)

lemma lines_at_append:
  assumes "appendFileSync flt p ls d = Some d'"
  shows "\<exists>q. \<forall>r. lines_at d' r = (if r = q then lines_at d q @ ls else lines_at d r)"
proof -
  obtain q where q: "map_of d' = (map_of d)(q \<mapsto> File (lines_at d q @ ls))"
    using appendFileSync_Some [OF assms] by blast
  have "\<forall>r. lines_at d' r = (if r = q then lines_at d q @ ls else lines_at d r)"
    by (simp add: lines_at_def q)
  then show ?thesis ..
qed

lemma lines_at_append_direct:
  assumes "appendFileSync flt p ls d = Some d'" "\<forall>t. map_of d p \<noteq> Some (Symlink t)"
  shows "lines_at d' r = (if r = p then lines_at d p @ ls else lines_at d r)"
proof -
  have "resolve_link 40 d p = Some p"
    using assms(2) by (rule resolve_link_not_link)
  then have "map_of d' = (map_of d)(p \<mapsto> File (lines_at d p @ ls))"
    using appendFileSync_Some [OF assms(1)] by auto
  then show ?thesis
    by (simp add: lines_at_def)
qed

lemma say_fields [simp]:
  "currentDate (say m s) = currentDate s" "SAVE_FILE (say m s) = SAVE_FILE s" "disk (say m s) = disk s"
  "unknownCache (say m s) = unknownCache s" "lookupSeen (say m s) = lookupSeen s"
  "totalPackets (say m s) = totalPackets s" "uniqueHex (say m s) = uniqueHex s"
  "uniqueFlights (say m s) = uniqueFlights s" "topOwners (say m s) = topOwners s"
  "topModels (say m s) = topModels s" "timeline (say m s) = timeline s" "clients (say m s) = clients s"
  "queries (say m s) = queries s"
  by (simp_all add: say_def)

lemma updateLatestSymlink_fields [simp]:
  "currentDate (updateLatestSymlink e s) = currentDate s" "SAVE_FILE (updateLatestSymlink e s) = SAVE_FILE s"
  "unknownCache (updateLatestSymlink e s) = unknownCache s" "lookupSeen (updateLatestSymlink e s) = lookupSeen s"
  "totalPackets (updateLatestSymlink e s) = totalPackets s" "uniqueHex (updateLatestSymlink e s) = uniqueHex s"
  "uniqueFlights (updateLatestSymlink e s) = uniqueFlights s" "topOwners (updateLatestSymlink e s) = topOwners s"
  "topModels (updateLatestSymlink e s) = topModels s" "timeline (updateLatestSymlink e s) = timeline s"
  "clients (updateLatestSymlink e s) = clients s" "queries (updateLatestSymlink e s) = queries s"
  "console (updateLatestSymlink e s) = console s"
  by (simp_all add: updateLatestSymlink_def Let_def split: option.splits)

lemma pruneOldLogs_fields [simp]:
  "currentDate (pruneOldLogs e s) = currentDate s" "SAVE_FILE (pruneOldLogs e s) = SAVE_FILE s"
  "unknownCache (pruneOldLogs e s) = unknownCache s" "lookupSeen (pruneOldLogs e s) = lookupSeen s"
  "totalPackets (pruneOldLogs e s) = totalPackets s" "uniqueHex (pruneOldLogs e s) = uniqueHex s"
  "uniqueFlights (pruneOldLogs e s) = uniqueFlights s" "topOwners (pruneOldLogs e s) = topOwners s"
  "topModels (pruneOldLogs e s) = topModels s" "timeline (pruneOldLogs e s) = timeline s"
  "clients (pruneOldLogs e s) = clients s" "queries (pruneOldLogs e s) = queries s"
  "console (pruneOldLogs e s) = console s"
  by (simp_all add: pruneOldLogs_def Let_def split: option.splits)

lemma rotateIfNeeded_fields [simp]:
  "unknownCache (rotateIfNeeded e s) = unknownCache s" "lookupSeen (rotateIfNeeded e s) = lookupSeen s"
  "totalPackets (rotateIfNeeded e s) = totalPackets s" "uniqueHex (rotateIfNeeded e s) = uniqueHex s"
  "uniqueFlights (rotateIfNeeded e s) = uniqueFlights s" "topOwners (rotateIfNeeded e s) = topOwners s"
  "topModels (rotateIfNeeded e s) = topModels s" "timeline (rotateIfNeeded e s) = timeline s"
  "clients (rotateIfNeeded e s) = clients s" "queries (rotateIfNeeded e s) = queries s"
  by (simp_all add: rotateIfNeeded_def Let_def split: option.splits)

lemma logUnknownHex_fields [simp]:
  "currentDate (logUnknownHex e h s) = currentDate s" "SAVE_FILE (logUnknownHex e h s) = SAVE_FILE s"
  "lookupSeen (logUnknownHex e h s) = lookupSeen s"
  "totalPackets (logUnknownHex e h s) = totalPackets s" "uniqueHex (logUnknownHex e h s) = uniqueHex s"
  "uniqueFlights (logUnknownHex e h s) = uniqueFlights s" "topOwners (logUnknownHex e h s) = topOwners s"
  "topModels (logUnknownHex e h s) = topModels s" "timeline (logUnknownHex e h s) = timeline s"
  "clients (logUnknownHex e h s) = clients s" "queries (logUnknownHex e h s) = queries s"
  by (simp_all add: logUnknownHex_def Let_def split: option.splits)

lemma note_lookup_fields [simp]:
  "currentDate (note_lookup m h s) = currentDate s" "SAVE_FILE (note_lookup m h s) = SAVE_FILE s"
  "disk (note_lookup m h s) = disk s" "unknownCache (note_lookup m h s) = unknownCache s"
  "totalPackets (note_lookup m h s) = totalPackets s" "uniqueHex (note_lookup m h s) = uniqueHex s"
  "uniqueFlights (note_lookup m h s) = uniqueFlights s" "topOwners (note_lookup m h s) = topOwners s"
  "topModels (note_lookup m h s) = topModels s" "timeline (note_lookup m h s) = timeline s"
  "clients (note_lookup m h s) = clients s" "queries (note_lookup m h s) = queries s"
  by (simp_all add: note_lookup_def)

lemma enrich_fields [simp]:
  "currentDate (snd (enrich e h s)) = currentDate s" "SAVE_FILE (snd (enrich e h s)) = SAVE_FILE s"
  "totalPackets (snd (enrich e h s)) = totalPackets s" "uniqueHex (snd (enrich e h s)) = uniqueHex s"
  "uniqueFlights (snd (enrich e h s)) = uniqueFlights s" "topOwners (snd (enrich e h s)) = topOwners s"
  "topModels (snd (enrich e h s)) = topModels s" "timeline (snd (enrich e h s)) = timeline s"
  "clients (snd (enrich e h s)) = clients s"
  by (simp_all add: enrich_def Let_def split: option.splits)

lemma updateStats_fields [simp]:
  "currentDate (snd (updateStats e pkt s)) = currentDate s" "SAVE_FILE (snd (updateStats e pkt s)) = SAVE_FILE s"
  "disk (snd (updateStats e pkt s)) = disk s" "unknownCache (snd (updateStats e pkt s)) = unknownCache s"
  "lookupSeen (snd (updateStats e pkt s)) = lookupSeen s" "clients (snd (updateStats e pkt s)) = clients s"
  "queries (snd (updateStats e pkt s)) = queries s" "console (snd (updateStats e pkt s)) = console s"
  by (simp_all add: updateStats_def Let_def split: sum.splits)

lemma broadcast_fields [simp]:
  "currentDate (broadcast m s) = currentDate s" "SAVE_FILE (broadcast m s) = SAVE_FILE s"
  "disk (broadcast m s) = disk s" "unknownCache (broadcast m s) = unknownCache s"
  "lookupSeen (broadcast m s) = lookupSeen s" "totalPackets (broadcast m s) = totalPackets s"
  "uniqueHex (broadcast m s) = uniqueHex s" "uniqueFlights (broadcast m s) = uniqueFlights s"
  "topOwners (broadcast m s) = topOwners s" "topModels (broadcast m s) = topModels s"
  "timeline (broadcast m s) = timeline s" "queries (broadcast m s) = queries s"
  "console (broadcast m s) = console s"
  by (simp_all add: broadcast_def)

lemma persist_fields [simp]:
  "currentDate (persist e m s) = currentDate s" "SAVE_FILE (persist e m s) = SAVE_FILE s"
  "unknownCache (persist e m s) = unknownCache s" "lookupSeen (persist e m s) = lookupSeen s"
  "totalPackets (persist e m s) = totalPackets s" "uniqueHex (persist e m s) = uniqueHex s"
  "uniqueFlights (persist e m s) = uniqueFlights s" "topOwners (persist e m s) = topOwners s"
  "topModels (persist e m s) = topModels s" "timeline (persist e m s) = timeline s"
  "clients (persist e m s) = clients s" "queries (persist e m s) = queries s"
  by (simp_all add: persist_def split: option.splits)

section \<open>What rotation does to the lines on disk\<close>

lemma prune_loop_map_of:
  "map_of (prune_loop flt cutoff names d) p = map_of d p \<or>
   (map_of (prune_loop flt cutoff names d) p = None \<and>
    (\<exists>f \<in> set names. prunable cutoff f \<and> p = path_join LOG_DIR f))"
proof (induction names arbitrary: d)
  case Nil
  then show ?case by simp
next
  case (Cons f names)
  show ?case
  proof (cases "prunable cutoff f")
    case False
    then show ?thesis using Cons.IH [of d] by auto
  next
    case True
    show ?thesis
    proof (cases "unlinkSync flt (path_join LOG_DIR f) d")
      case None
      then show ?thesis using True by simp
    next
      case (Some d')
      then have d': "map_of d' = (map_of d)(path_join LOG_DIR f := None)"
        by (rule unlinkSync_Some)
      show ?thesis
        using Cons.IH [of d'] True Some d' by (auto split: if_splits)
    qed
  qed
qed

lemma lines_at_None: "map_of d p = None \<Longrightarrow> lines_at d p = []"
  by (simp add: lines_at_def)

lemma lines_at_cong: "map_of d' p = map_of d p \<Longrightarrow> lines_at d' p = lines_at d p"
  by (simp add: lines_at_def)

lemma pruneOldLogs_lines:
  "lines_at (disk (pruneOldLogs e s)) p = lines_at (disk s) p \<or> lines_at (disk (pruneOldLogs e s)) p = []"
proof (cases "readdirSync (fault e) LOG_DIR (disk s)")
  case None
  then show ?thesis by (simp add: pruneOldLogs_def)
next
  case (Some names)
  then have "disk (pruneOldLogs e s) = prune_loop (fault e) (prune_now e - KEEP_DAYS * 86400000) names (disk s)"
    by (simp add: pruneOldLogs_def)
  then show ?thesis
    using prune_loop_map_of [of "fault e" "prune_now e - KEEP_DAYS * 86400000" names "disk s" p]
    by (auto simp: lines_at_def)
qed

lemma updateLatestSymlink_lines:
  "lines_at (disk (updateLatestSymlink e s)) p = (if p = LATEST_LINK then [] else lines_at (disk s) p) \<or>
   lines_at (disk (updateLatestSymlink e s)) p = lines_at (disk s) p"
  by (auto simp: updateLatestSymlink_def Let_def lines_at_def dest!: unlinkSync_Some symlinkSync_Some
      split: option.splits)

lemma append_nothing_lines:
  assumes "appendFileSync flt p [] d = Some d'"
  shows "lines_at d' q = lines_at d q"
  using lines_at_append [OF assms] by auto

lemma rotateIfNeeded_lines:
  "lines_at (disk (rotateIfNeeded e s)) p = lines_at (disk s) p \<or> lines_at (disk (rotateIfNeeded e s)) p = []"
proof (cases "dateStamp (rotate_date e) = currentDate s")
  case True
  then show ?thesis by (simp add: rotateIfNeeded_def)
next
  case False
  define s1 where "s1 = s\<lparr>currentDate := dateStamp (rotate_date e), SAVE_FILE := logPathFor (dateStamp (rotate_date e))\<rparr>"
  define s2 where "s2 = (case appendFileSync (fault e) (SAVE_FILE s1) [] (disk s1) of None \<Rightarrow> s1 | Some d \<Rightarrow> s1\<lparr>disk := d\<rparr>)"
  have rot: "disk (rotateIfNeeded e s) = disk (pruneOldLogs e (updateLatestSymlink e s2))"
    unfolding s2_def s1_def using False by (simp add: rotateIfNeeded_def Let_def)
  have a: "lines_at (disk s2) p = lines_at (disk s) p"
    by (auto simp: s2_def s1_def append_nothing_lines split: option.splits)
  show ?thesis
    using pruneOldLogs_lines [of e "updateLatestSymlink e s2" p] updateLatestSymlink_lines [of e s2 p] a rot
    by (auto split: if_splits)
qed

section \<open>The assembled message\<close>

declare show_nat.simps [simp del]

lemma show_nat_nonempty: "show_nat n \<noteq> []"
  by (subst show_nat.simps) simp

lemma digit_char_is_digit: "d < 10 \<Longrightarrow> is_digit (digit_char d)"
proof -
  have "\<forall>d \<in> set [0..<10]. is_digit (digit_char d)"
    by code_simp
  then show "d < 10 \<Longrightarrow> is_digit (digit_char d)"
    by simp
qed

lemma hd_show_nat: "is_digit (hd (show_nat n))"
proof (induction n rule: show_nat.induct)
  case (1 n)
  show ?case
  proof (cases "n < 10")
    case True
    then show ?thesis by (subst show_nat.simps) (simp add: digit_char_is_digit)
  next
    case False
    then have "hd (show_nat n) = hd (show_nat (n div 10))"
      by (subst show_nat.simps) (simp add: show_nat_nonempty)
    then show ?thesis using 1 False by simp
  qed
qed

lemma map_of_index_props:
  assumes "\<not> is_digit (hd k)"
  shows "map_of (zip (map show_nat ns) vs) k = None"
proof -
  have "k \<notin> set (map show_nat ns)"
    using assms hd_show_nat by auto
  then have "k \<notin> fst ` set (zip (map show_nat ns) vs)"
    by (auto dest: set_zip_leftD)
  then show ?thesis
    by (simp add: map_of_eq_None_iff)
qed

lemma get_own_props:
  assumes "\<not> is_digit (hd k)"
  shows "(case map_of (own_props v) k of Some x \<Rightarrow> x | None \<Rightarrow> JUndefined) = get v k"
  using assms by (cases v) (simp_all add: map_of_index_props)

lemma not_digit_names:
  "\<not> is_digit (hd ''vdl2'')" "\<not> is_digit (hd ''db'')" "\<not> is_digit (hd ''timestamp_iso'')"
  by (simp_all add: is_digit_def)

lemma get_assemble_db: "get (assemble parsed enriched ts) ''db'' = enriched"
  by (simp add: assemble_def update_conv')

lemma get_assemble_vdl2: "get (assemble parsed enriched ts) ''vdl2'' = get parsed ''vdl2''"
  using get_own_props [of "''vdl2''" parsed]
  by (simp add: assemble_def update_conv' is_digit_def)

lemma get_falsy: "\<not> truthy v \<Longrightarrow> get v k = JUndefined"
  by (cases v) simp_all

lemma get_vdl2_of: "get (vdl2_of parsed) k = get (get parsed ''vdl2'') k"
  by (simp add: vdl2_of_def js_or_def get_falsy)

lemma stats_addr:
  "get (get (get (get (assemble parsed enriched ts) ''vdl2'') ''avlc'') ''src'') ''addr'' =
   get (get (get (vdl2_of parsed) ''avlc'') ''src'') ''addr''"
  by (simp add: get_assemble_vdl2 get_vdl2_of)

lemma rawHex_truthy:
  "truthy (get (get (get vdl2 ''avlc'') ''src'') ''addr'') \<Longrightarrow>
   rawHex_of vdl2 = get (get (get vdl2 ''avlc'') ''src'') ''addr''"
  by (auto simp: rawHex_of_def nullish_def)

lemma updateStats_returns:
  assumes "normalizeHex (rawHex_of (vdl2_of parsed)) = Inr hex"
  shows "fst (updateStats e (assemble parsed enriched ts) s) = None"
  using assms
  by (auto simp: updateStats_def Let_def stats_addr rawHex_truthy split: sum.splits)

lemma handler_parsed:
  assumes "JSON_parse e (trim msg) = Some parsed"
    and "normalizeHex (rawHex_of (vdl2_of parsed)) = Inr hex"
    and "timestamp_iso e (vdl2_of parsed) = Inr ts"
  shows "handler e msg s =
     (None, broadcast (assemble parsed (fst (enrich e hex (rotateIfNeeded e s))) ts)
        (snd (updateStats e (assemble parsed (fst (enrich e hex (rotateIfNeeded e s))) ts)
           (persist e (assemble parsed (fst (enrich e hex (rotateIfNeeded e s))) ts)
              (snd (enrich e hex (rotateIfNeeded e s)))))))"
  using assms updateStats_returns [OF assms(2)]
  by (simp add: handler_def Let_def)

lemma handler_throws_timestamp:
  assumes "JSON_parse e (trim msg) = Some parsed"
    and "normalizeHex (rawHex_of (vdl2_of parsed)) = Inr hex"
    and "timestamp_iso e (vdl2_of parsed) = Inl err"
  shows "handler e msg s = (Some err, snd (enrich e hex (rotateIfNeeded e s)))"
  using assms by (simp add: handler_def Let_def)

lemma handler_throws_normalize:
  assumes "JSON_parse e (trim msg) = Some parsed"
    and "normalizeHex (rawHex_of (vdl2_of parsed)) = Inl err"
  shows "handler e msg s = (Some err, rotateIfNeeded e s)"
  using assms by (simp add: handler_def Let_def)

lemma enrich_queries:
  "queries (snd (enrich e hex s)) = (if hex \<noteq> [] then queries s @ [hex] else queries s)"
  by (simp add: enrich_def Let_def DEBUG_LOOKUPS_def split: option.splits)





section \<open>The unknown-key ledger\<close>

lemma in_dir_path_join [simp]: "in_dir dir (path_join dir f)"
  by (simp add: in_dir_def path_join_def)

lemma in_dir_logPathFor [simp]: "in_dir LOG_DIR (logPathFor d)"
  by (simp add: logPathFor_def)

lemma in_dir_LATEST_LINK [simp]: "in_dir LOG_DIR LATEST_LINK"
  by (simp add: LATEST_LINK_def)

lemma ledger_not_in_LOG_DIR [simp]: "\<not> in_dir LOG_DIR (ledger_file day)"
  by (simp add: in_dir_def ledger_file_def path_join_def LOG_DIR_def UNKNOWN_DIR_def)






lemma unknown_lines_append [simp]:
  "unknown_lines hex (xs @ ys) = unknown_lines hex xs @ unknown_lines hex ys"
  by (simp add: unknown_lines_def)

lemma unknown_lines_simps [simp]:
  "unknown_lines hex [] = []"
  "unknown_lines hex [LogLine m] = []"
  "unknown_lines hex [UnknownLine ts h] = (if h = hex then [UnknownLine ts h] else [])"
  by (simp_all add: unknown_lines_def)




lemma logUnknownHex_keeps_links:
  "map_of (disk (logUnknownHex e h s)) r = Some (Symlink t) \<longleftrightarrow> map_of (disk s) r = Some (Symlink t)"
  by (auto simp: logUnknownHex_def Let_def append_keeps_links split: option.splits)

lemma enrich_keeps_links:
  "map_of (disk (snd (enrich e h s))) r = Some (Symlink t) \<longleftrightarrow> map_of (disk s) r = Some (Symlink t)"
  by (auto simp: enrich_def Let_def logUnknownHex_keeps_links split: option.splits)

lemma logUnknownHex_first:
  assumes "hex \<noteq> []" "hex \<notin> unknownCache s"
    and "\<not> fault e (AppendFileSync (ledger_file (dateStamp (unknown_date e))))"
    and "\<forall>t. map_of (disk s) (ledger_file (dateStamp (unknown_date e))) \<noteq> Some (Symlink t)"
  shows "unknownCache (logUnknownHex e hex s) = insert hex (unknownCache s)"
    and "lines_at (disk (logUnknownHex e hex s)) q =
           (if q = ledger_file (dateStamp (unknown_date e))
            then lines_at (disk s) q @ [UnknownLine (unknown_iso e) hex] else lines_at (disk s) q)"
proof -
  let ?p = "ledger_file (dateStamp (unknown_date e))"
  obtain d where d: "appendFileSync (fault e) ?p [UnknownLine (unknown_iso e) hex] (disk s) = Some d"
    using appendFileSync_direct [where flt = "fault e" and p = ?p and d = "disk s"] assms(3,4) by blast
  have eq: "logUnknownHex e hex s = s\<lparr>unknownCache := insert hex (unknownCache s), disk := d\<rparr>"
    using assms(1,2) d by (simp add: logUnknownHex_def Let_def ledger_file_def)
  show "unknownCache (logUnknownHex e hex s) = insert hex (unknownCache s)"
    by (simp add: eq)
  show "lines_at (disk (logUnknownHex e hex s)) q =
           (if q = ?p then lines_at (disk s) q @ [UnknownLine (unknown_iso e) hex] else lines_at (disk s) q)"
    using lines_at_append_direct [OF d assms(4), of q] by (simp add: eq)
qed








lemma enrich_absent:
  assumes "hex \<noteq> []" "stmtLookup_get e hex = Some row" "\<not> truthy row"
  shows "snd (enrich e hex s) =
           logUnknownHex e hex (note_lookup (NoDbMatch hex) hex (s\<lparr>queries := queries s @ [hex]\<rparr>))"
    and "fst (enrich e hex s) = JObj []"
  using assms by (simp_all add: enrich_def Let_def)

lemma enrich_first_miss:
  assumes hex: "hex \<noteq> []"
    and absent: "stmtLookup_get e hex = Some row" "\<not> truthy row"
    and first: "hex \<notin> unknownCache s"
    and ok: "\<not> fault e (AppendFileSync (ledger_file (dateStamp (unknown_date e))))"
      "\<forall>t. map_of (disk s) (ledger_file (dateStamp (unknown_date e))) \<noteq> Some (Symlink t)"
  shows "unknownCache (snd (enrich e hex s)) = insert hex (unknownCache s)"
    and "lines_at (disk (snd (enrich e hex s))) q =
           (if q = ledger_file (dateStamp (unknown_date e))
            then lines_at (disk s) q @ [UnknownLine (unknown_iso e) hex] else lines_at (disk s) q)"
proof -
  let ?sq = "note_lookup (NoDbMatch hex) hex (s\<lparr>queries := queries s @ [hex]\<rparr>)"
  have s1: "snd (enrich e hex s) = logUnknownHex e hex ?sq"
    using hex absent by (rule enrich_absent)
  have pre: "hex \<notin> unknownCache ?sq"
    "\<not> fault e (AppendFileSync (ledger_file (dateStamp (unknown_date e))))"
    "\<forall>t. map_of (disk ?sq) (ledger_file (dateStamp (unknown_date e))) \<noteq> Some (Symlink t)"
    using first ok by simp_all
  show "unknownCache (snd (enrich e hex s)) = insert hex (unknownCache s)"
    using logUnknownHex_first(1) [OF hex pre] by (simp add: s1)
  show "lines_at (disk (snd (enrich e hex s))) q =
           (if q = ledger_file (dateStamp (unknown_date e))
            then lines_at (disk s) q @ [UnknownLine (unknown_iso e) hex] else lines_at (disk s) q)"
    using logUnknownHex_first(2) [OF hex pre, of q] by (simp add: s1)
qed

lemma persist_lines_elsewhere:
  assumes "q \<noteq> SAVE_FILE s" "\<forall>t. map_of (disk s) (SAVE_FILE s) \<noteq> Some (Symlink t)"
  shows "lines_at (disk (persist e m s)) q = lines_at (disk s) q"
  using assms by (auto simp: persist_def lines_at_append_direct split: option.splits)

lemma updateStats_uniqueHex:
  "uniqueHex (snd (updateStats e pkt s)) =
     (if truthy (get (get (get (get pkt ''vdl2'') ''avlc'') ''src'') ''addr'')
      then (case normalizeHex (get (get (get (get pkt ''vdl2'') ''avlc'') ''src'') ''addr'') of
              Inl err \<Rightarrow> uniqueHex s
            | Inr hex \<Rightarrow> if hex \<noteq> [] then insert hex (uniqueHex s) else uniqueHex s)
      else uniqueHex s)"
  by (simp add: updateStats_def Let_def split: sum.splits)

section \<open>The concrete inputs, evaluated\<close>

lemma trim_datagrams:
  "trim empty_datagram = empty_datagram" "trim garbage_datagram = garbage_datagram"
  "trim abcdef_datagram = abcdef_datagram" "trim late_datagram = late_datagram"
  by (simp_all add: trim_def js_space_def empty_datagram_def garbage_datagram_def
      abcdef_datagram_def late_datagram_def)

lemma parse_datagrams:
  "JSON_parse quiet_env (trim empty_datagram) = Some (JObj [])"
  "JSON_parse quiet_env (trim garbage_datagram) = Some garbage_parsed"
  "JSON_parse quiet_env (trim abcdef_datagram) = Some abcdef_parsed"
  "JSON_parse quiet_env (trim late_datagram) = Some late_parsed"
  unfolding trim_datagrams
  by (simp_all add: quiet_env_def empty_datagram_def garbage_datagram_def
      abcdef_datagram_def late_datagram_def)

lemma key_datagrams:
  "normalizeHex (rawHex_of (vdl2_of (JObj []))) = Inr ''000000''"
  "normalizeHex (rawHex_of (vdl2_of garbage_parsed)) = Inr ''000000''"
  "normalizeHex (rawHex_of (vdl2_of abcdef_parsed)) = Inr ''abcdef''"
  "normalizeHex (rawHex_of (vdl2_of late_parsed)) = Inr ''000000''"
  by code_simp+

lemma dateStamp_day3: "dateStamp day3 = ''2024-01-03''"
  by code_simp

lemma timestamp_no_sec:
  "timestamp_iso quiet_env (vdl2_of (JObj [])) = Inr ''2024-01-03T00:00:10.000Z''"
  "timestamp_iso quiet_env (vdl2_of garbage_parsed) = Inr ''2024-01-03T00:00:10.000Z''"
  "timestamp_iso quiet_env (vdl2_of abcdef_parsed) = Inr ''2024-01-03T00:00:10.000Z''"
  by (simp_all add: timestamp_iso_def vdl2_of_def js_or_def quiet_env_def garbage_parsed_def
      abcdef_parsed_def)

lemma quiet_env_fields:
  "rotate_date quiet_env = day3" "unknown_date quiet_env = day3"
  "unknown_iso quiet_env = ''2024-01-03T00:00:10.000Z''"
  "stmtLookup_get quiet_env hex = Some JUndefined" "fault quiet_env op = False"
  by (simp_all add: quiet_env_def)

lemma rotate_same_day: "rotateIfNeeded quiet_env (init day3 d cs) = init day3 d cs"
  by (simp add: rotateIfNeeded_def quiet_env_fields init_def Let_def)

lemma timestamp_late: "timestamp_iso quiet_env (vdl2_of late_parsed) = Inl RangeError"
  by (simp add: timestamp_iso_def vdl2_of_def js_or_def late_parsed_def ToNumber_def)


section \<open>Properties of the address normalizer\<close>

lemma lower_char_hex_all: "\<forall>c \<in> set ''0123456789abcdefABCDEF''. is_lower_hex (lower_char c)"
  by code_simp

lemma lower_char_hex: "is_hex c \<Longrightarrow> is_lower_hex (lower_char c)"
  using lower_char_hex_all unfolding is_hex_def by blast

lemma length_padStart: "length (padStart n c s) = max n (length s)"
  by (simp add: padStart_def)

lemma padStart_all: "P c \<Longrightarrow> list_all P s \<Longrightarrow> list_all P (padStart n c s)"
  by (auto simp: padStart_def list_all_iff)

lemma filter_dropWhile_disjoint:
  "(\<And>c. Q c \<Longrightarrow> \<not> P c) \<Longrightarrow> filter P (dropWhile Q s) = filter P s"
  by (induction s) auto

lemma space_not_hex: "js_space c \<Longrightarrow> \<not> is_hex c"
  unfolding js_space_def is_hex_def by auto

lemma filter_hex_trim: "filter is_hex (trim s) = filter is_hex s"
proof -
  have "filter is_hex (trim s) = rev (filter is_hex (dropWhile js_space (rev (dropWhile js_space s))))"
    by (simp add: trim_def rev_filter)
  also have "\<dots> = rev (filter is_hex (rev (dropWhile js_space s)))"
    by (simp add: filter_dropWhile_disjoint space_not_hex)
  also have "\<dots> = filter is_hex (dropWhile js_space s)"
    by (simp add: rev_filter)
  finally show ?thesis
    by (simp add: filter_dropWhile_disjoint space_not_hex)
qed

lemma normalizeHex_of_string:
  assumes "js_toString (nullish raw (JStr [])) = Inr str"
  shows "normalizeHex raw = Inr (toLowerCase (padStart 6 (CHR ''0'') (filter is_hex str)))"
  using assms by (simp add: normalizeHex_def filter_hex_trim)

lemma map_lower_hex: "list_all is_hex xs \<Longrightarrow> list_all is_lower_hex (toLowerCase xs)"
  by (induction xs) (simp_all add: toLowerCase_def lower_char_hex)

lemma zero_is_hex: "is_hex (CHR ''0'')"
  by code_simp

lemma lower_padded_hex:
  "list_all is_lower_hex (toLowerCase (padStart 6 (CHR ''0'') (filter is_hex str)))"
  by (intro map_lower_hex padStart_all zero_is_hex) (simp add: list_all_iff)

lemma normalizeHex_shape:
  assumes "normalizeHex raw = Inr h"
  shows "list_all is_lower_hex h \<and> 6 \<le> length h \<and> h \<noteq> []"
proof -
  obtain str where "js_toString (nullish raw (JStr [])) = Inr str"
    using assms by (auto simp: normalizeHex_def split: sum.splits)
  then have h: "h = toLowerCase (padStart 6 (CHR ''0'') (filter is_hex str))"
    using assms normalizeHex_of_string by simp
  have "6 \<le> length h"
    by (simp add: h toLowerCase_def length_padStart)
  then show ?thesis
    using lower_padded_hex [of str] h by auto
qed

text \<open>
  What the normalizer does on a string, a safe integer or an absent value: the hexadecimal
  digits of the input pass through in their order, in lower case, after as many zeros as it
  takes to reach six characters. The result matches \<^verbatim>\<open>^[0-9a-f]{6}$\<close> exactly when the input
  has at most six hexadecimal digits.
\<close>

lemma normalizeHex_padded:
  assumes "case raw of JUndefined \<Rightarrow> True | JNull \<Rightarrow> True | JStr _ \<Rightarrow> True
             | JNum n \<Rightarrow> \<bar>n\<bar> \<le> MAX_SAFE_INTEGER | _ \<Rightarrow> False"
  shows "\<exists>str. js_toString (nullish raw (JStr [])) = Inr str \<and>
           normalizeHex raw =
             Inr (replicate (6 - length (filter is_hex str)) (CHR ''0'') @ toLowerCase (filter is_hex str)) \<and>
           (matches_hex6 (replicate (6 - length (filter is_hex str)) (CHR ''0'') @ toLowerCase (filter is_hex str))
              \<longleftrightarrow> length (filter is_hex str) \<le> 6)"
proof -
  obtain str where str: "js_toString (nullish raw (JStr [])) = Inr str"
    using assms by (cases raw) (simp_all add: nullish_def)
  let ?h = "toLowerCase (padStart 6 (CHR ''0'') (filter is_hex str))"
  have h: "normalizeHex raw = Inr ?h"
    using str by (rule normalizeHex_of_string)
  have len: "length ?h = max 6 (length (filter is_hex str))"
    by (simp add: toLowerCase_def length_padStart)
  have low: "list_all is_lower_hex ?h"
    by (rule lower_padded_hex)
  have six: "matches_hex6 ?h \<longleftrightarrow> length (filter is_hex str) \<le> 6"
    using low len by (simp add: matches_hex6_def max_def)
  have "lower_char (CHR ''0'') = CHR ''0''"
    by code_simp
  then have shape: "?h = replicate (6 - length (filter is_hex str)) (CHR ''0'') @ toLowerCase (filter is_hex str)"
    by (simp add: toLowerCase_def padStart_def)
  show ?thesis
    using str h six unfolding shape by (intro exI conjI)
qed

text \<open>
  C2, on the code. \<^verbatim>\<open>padStart\<close> pads and never cuts: an address of eight hexadecimal digits
  passes through whole, and the key is not the six characters the comment of the function
  and the specification promise.
\<close>

theorem normalizeHex_eight_digits:
  "normalizeHex (JStr ''a1b2c3d4'') = Inr ''a1b2c3d4'' \<and> \<not> matches_hex6 ''a1b2c3d4''"
  by code_simp

section \<open>Rotation, when no file-system call fails\<close>

lemma entry_name_path_join:
  "f \<noteq> [] \<Longrightarrow> CHR ''/'' \<notin> set f \<Longrightarrow> entry_name dir (path_join dir f) = Some f"
  by (simp add: entry_name_def path_join_def)

lemma entry_name_Some:
  assumes "entry_name dir p = Some f"
  shows "p = path_join dir f" "f \<noteq> []" "CHR ''/'' \<notin> set f"
proof -
  have t: "take (length dir + 1) p = dir @ ''/''" and f: "f = drop (length dir + 1) p"
    and ne: "f \<noteq> []" and sl: "CHR ''/'' \<notin> set f"
    using assms by (auto simp: entry_name_def Let_def split: if_splits)
  have "take (length dir + 1) p @ drop (length dir + 1) p = p"
    by (rule append_take_drop_id)
  then have "(dir @ ''/'') @ f = p"
    by (simp only: t f)
  then show "p = path_join dir f"
    by (simp add: path_join_def)
  show "f \<noteq> []" "CHR ''/'' \<notin> set f"
    using ne sl by simp_all
qed

lemma path_join_inject [simp]: "path_join dir f = path_join dir g \<longleftrightarrow> f = g"
  by (simp add: path_join_def)

lemma set_map_filter_iff: "y \<in> set (List.map_filter g xs) \<longleftrightarrow> (\<exists>x \<in> set xs. g x = Some y)"
  by (induction xs) (auto split: option.splits)

lemma readdirSync_names:
  assumes "readdirSync flt dir d = Some names"
  shows "distinct names"
    and "f \<in> set names \<longleftrightarrow> (f \<noteq> [] \<and> CHR ''/'' \<notin> set f \<and> map_of d (path_join dir f) \<noteq> None)"
proof -
  have names: "names = remdups (List.map_filter (\<lambda>e. entry_name dir (fst e)) d)"
    using assms by (simp add: readdirSync_def split: if_splits)
  show "distinct names"
    by (simp add: names)
  have a: "f \<in> set names \<longleftrightarrow> (\<exists>p \<in> fst ` set d. entry_name dir p = Some f)"
    by (auto simp: names set_map_filter_iff)
  show "f \<in> set names \<longleftrightarrow> (f \<noteq> [] \<and> CHR ''/'' \<notin> set f \<and> map_of d (path_join dir f) \<noteq> None)"
  proof
    assume "f \<in> set names"
    then obtain p where p: "p \<in> fst ` set d" "entry_name dir p = Some f"
      using a by blast
    have "p = path_join dir f" "f \<noteq> []" "CHR ''/'' \<notin> set f"
      using entry_name_Some [OF p(2)] by simp_all
    then show "f \<noteq> [] \<and> CHR ''/'' \<notin> set f \<and> map_of d (path_join dir f) \<noteq> None"
      using p(1) by (simp add: map_of_eq_None_iff)
  next
    assume r: "f \<noteq> [] \<and> CHR ''/'' \<notin> set f \<and> map_of d (path_join dir f) \<noteq> None"
    then have "path_join dir f \<in> fst ` set d"
      by (simp add: map_of_eq_None_iff)
    moreover have "entry_name dir (path_join dir f) = Some f"
      using r by (simp add: entry_name_path_join)
    ultimately show "f \<in> set names"
      using a by blast
  qed
qed

lemma prune_loop_exact:
  assumes "\<forall>p. \<not> flt (UnlinkSync p)" "distinct names"
    and "\<forall>f \<in> set names. map_of d (path_join LOG_DIR f) \<noteq> None"
  shows "map_of (prune_loop flt cutoff names d) p =
           (if \<exists>f \<in> set names. prunable cutoff f \<and> p = path_join LOG_DIR f then None else map_of d p)"
  using assms(2,3)
proof (induction names arbitrary: d)
  case Nil
  then show ?case by simp
next
  case (Cons f names)
  show ?case
  proof (cases "prunable cutoff f")
    case False
    then show ?thesis using Cons by auto
  next
    case True
    have "unlinkSync flt (path_join LOG_DIR f) d = Some (AList.delete (path_join LOG_DIR f) d)"
      using assms(1) Cons.prems(2) by (simp add: unlinkSync_def)
    moreover have "\<forall>g \<in> set names. map_of (AList.delete (path_join LOG_DIR f) d) (path_join LOG_DIR g) \<noteq> None"
      using Cons.prems by (auto simp: delete_conv')
    ultimately show ?thesis
      using True Cons.IH [of "AList.delete (path_join LOG_DIR f) d"] Cons.prems(1)
      by (auto simp: delete_conv')
  qed
qed

lemma pruneOldLogs_exact:
  assumes "\<forall>op. \<not> fault e op"
  shows "map_of (disk (pruneOldLogs e s)) p =
           (if old_log (prune_now e - KEEP_DAYS * 86400000) p then None else map_of (disk s) p)"
proof -
  let ?c = "prune_now e - KEEP_DAYS * 86400000"
  obtain names where names: "readdirSync (fault e) LOG_DIR (disk s) = Some names"
    using assms by (simp add: readdirSync_def)
  note nm = readdirSync_names [OF names]
  have d: "disk (pruneOldLogs e s) = prune_loop (fault e) ?c names (disk s)"
    using names by (simp add: pruneOldLogs_def)
  have ex: "map_of (prune_loop (fault e) ?c names (disk s)) p =
      (if \<exists>f \<in> set names. prunable ?c f \<and> p = path_join LOG_DIR f then None else map_of (disk s) p)"
    using assms nm by (intro prune_loop_exact) auto
  show ?thesis
  proof (cases "old_log ?c p")
    case True
    then obtain f where f: "entry_name LOG_DIR p = Some f" "prunable ?c f"
      by (auto simp: old_log_def split: option.splits)
    note pf = entry_name_Some [OF f(1)]
    show ?thesis
    proof (cases "map_of (disk s) p = None")
      case True
      then show ?thesis using ex by (simp add: d)
    next
      case False
      then have "f \<in> set names"
        using pf nm(2) [of f] by simp
      then show ?thesis
        using ex f(2) pf(1) \<open>old_log ?c p\<close> by (auto simp: d)
    qed
  next
    case False
    have "\<not> (\<exists>f \<in> set names. prunable ?c f \<and> p = path_join LOG_DIR f)"
    proof
      assume "\<exists>f \<in> set names. prunable ?c f \<and> p = path_join LOG_DIR f"
      then obtain f where f: "f \<in> set names" "prunable ?c f" "p = path_join LOG_DIR f"
        by blast
      then have "entry_name LOG_DIR p = Some f"
        using nm(2) [of f] by (simp add: entry_name_path_join)
      then show False
        using False f(2) by (simp add: old_log_def)
    qed
    then have "map_of (prune_loop (fault e) ?c names (disk s)) p = map_of (disk s) p"
      by (simp only: ex if_False)
    then show ?thesis
      using False by (simp add: d)
  qed
qed

lemma updateLatestSymlink_exact:
  assumes "\<not> fault e (UnlinkSync LATEST_LINK)" "\<not> fault e (SymlinkSync LATEST_LINK)"
  shows "map_of (disk (updateLatestSymlink e s)) = (map_of (disk s))(LATEST_LINK \<mapsto> Symlink (SAVE_FILE s))"
  using assms
  by (auto simp: updateLatestSymlink_def Let_def unlinkSync_def symlinkSync_def delete_conv' update_conv'
      split: option.splits)

lemma latest_not_old: "\<not> old_log cutoff LATEST_LINK"
proof -
  have "entry_name LOG_DIR LATEST_LINK = Some ''received-latest.jsonl''"
    by code_simp
  moreover have "date_match ''received-latest.jsonl'' = None"
    by code_simp
  ultimately show ?thesis
    by (simp add: old_log_def prunable_def)
qed

lemma rotateIfNeeded_changed:
  assumes "dateStamp (rotate_date e) \<noteq> currentDate s"
  shows "rotateIfNeeded e s =
     say (Rotated (logPathFor (dateStamp (rotate_date e))))
       (pruneOldLogs e (updateLatestSymlink e
          (case appendFileSync (fault e) (logPathFor (dateStamp (rotate_date e))) [] (disk s) of
             None \<Rightarrow> s\<lparr>currentDate := dateStamp (rotate_date e), SAVE_FILE := logPathFor (dateStamp (rotate_date e))\<rparr>
           | Some d \<Rightarrow> s\<lparr>currentDate := dateStamp (rotate_date e), SAVE_FILE := logPathFor (dateStamp (rotate_date e)),
                          disk := d\<rparr>)))"
  using assms by (simp add: rotateIfNeeded_def Let_def split: option.splits)

lemma rotateIfNeeded_dates:
  "currentDate (rotateIfNeeded e s) = dateStamp (rotate_date e)"
  "dateStamp (rotate_date e) \<noteq> currentDate s \<Longrightarrow> SAVE_FILE (rotateIfNeeded e s) = logPathFor (dateStamp (rotate_date e))"
  "dateStamp (rotate_date e) = currentDate s \<Longrightarrow> SAVE_FILE (rotateIfNeeded e s) = SAVE_FILE s"
  by (auto simp: rotateIfNeeded_def Let_def split: option.splits)

lemma rotateIfNeeded_exact:
  assumes change: "dateStamp (rotate_date e) \<noteq> currentDate s"
    and nofault: "\<forall>op. \<not> fault e op"
    and notlink: "\<forall>t. map_of (disk s) (logPathFor (dateStamp (rotate_date e))) \<noteq> Some (Symlink t)"
  shows "map_of (disk (rotateIfNeeded e s)) p =
           (if old_log (prune_now e - KEEP_DAYS * 86400000) p then None
            else if p = LATEST_LINK then Some (Symlink (logPathFor (dateStamp (rotate_date e))))
            else if p = logPathFor (dateStamp (rotate_date e)) then Some (File (lines_at (disk s) p))
            else map_of (disk s) p)"
proof -
  let ?today = "dateStamp (rotate_date e)"
  let ?s1 = "s\<lparr>currentDate := ?today, SAVE_FILE := logPathFor ?today\<rparr>"
  obtain d where d: "appendFileSync (fault e) (logPathFor ?today) [] (disk s) = Some d"
    and md: "map_of d = (map_of (disk s))(logPathFor ?today \<mapsto> File (lines_at (disk s) (logPathFor ?today) @ []))"
    using appendFileSync_direct [where flt = "fault e" and p = "logPathFor ?today" and d = "disk s" and ls = "[]"]
      nofault notlink by blast
  have rot: "disk (rotateIfNeeded e s) = disk (pruneOldLogs e (updateLatestSymlink e (?s1\<lparr>disk := d\<rparr>)))"
    by (simp add: rotateIfNeeded_changed [OF change] d)
  have up: "map_of (disk (updateLatestSymlink e (?s1\<lparr>disk := d\<rparr>))) =
      (map_of d)(LATEST_LINK \<mapsto> Symlink (logPathFor ?today))"
    using updateLatestSymlink_exact [of e "?s1\<lparr>disk := d\<rparr>"] nofault by simp
  show ?thesis
    by (simp add: rot pruneOldLogs_exact [OF nofault] up md)
qed

section \<open>Properties of the statistics\<close>

lemma bump_timeline_same:
  assumes "bs \<noteq> []" "time (last bs) = key"
  shows "bump_timeline key bs = butlast bs @ [(last bs)\<lparr>count := count (last bs) + 1\<rparr>]"
  using assms by (simp add: bump_timeline_def)

lemma bump_timeline_new:
  assumes "bs = [] \<or> time (last bs) \<noteq> key"
  shows "bump_timeline key bs =
           (if length bs < 1440 then bs else tl bs) @ [\<lparr>time = key, count = 1\<rparr>]"
proof (cases bs)
  case Nil
  then show ?thesis by (simp add: bump_timeline_def)
next
  case (Cons b rest)
  then have "tl (bs @ [\<lparr>time = key, count = 0\<rparr>]) = tl bs @ [\<lparr>time = key, count = 0\<rparr>]"
    by simp
  then show ?thesis
    using assms Cons by (simp add: bump_timeline_def Let_def)
qed

lemma length_bump_timeline:
  "length (bump_timeline key bs) =
     (if bs \<noteq> [] \<and> time (last bs) = key then length bs
      else if length bs < 1440 then length bs + 1 else length bs)"
proof (cases "bs \<noteq> [] \<and> time (last bs) = key")
  case True
  then show ?thesis by (simp add: bump_timeline_same)
next
  case False
  then have "bs = [] \<or> time (last bs) \<noteq> key" by blast
  then show ?thesis
    using False by (cases bs) (simp_all add: bump_timeline_new)
qed

lemma timeline_updateStats:
  "timeline (snd (updateStats e pkt s)) =
     (if fst (updateStats e pkt s) = None then bump_timeline (take 16 (stats_iso e)) (timeline s)
      else timeline s)"
  by (simp add: updateStats_def Let_def split: sum.splits)

text \<open>
  C9. An \<^verbatim>\<open>updateStats\<close> that starts with at most 1440 buckets ends with at most 1440; and
  when it starts with 1440 and the minute is a new one, the first (oldest) bucket is the one
  that goes, the others keep their order, and the new bucket comes last with count 1.
\<close>

theorem timeline_bounded:
  assumes "length (timeline s) \<le> 1440"
  shows "length (timeline (snd (updateStats e pkt s))) \<le> 1440 \<and>
         (fst (updateStats e pkt s) = None \<and> length (timeline s) = 1440 \<and>
          time (last (timeline s)) \<noteq> take 16 (stats_iso e) \<longrightarrow>
            timeline (snd (updateStats e pkt s)) =
              tl (timeline s) @ [\<lparr>time = take 16 (stats_iso e), count = 1\<rparr>])"
  using assms by (auto simp: timeline_updateStats length_bump_timeline bump_timeline_new)

theorem timeline_bounded_witness:
  "length full_timeline = 1440 \<and>
   fst (updateStats quiet_env (JObj []) ((init day3 [] [])\<lparr>timeline := full_timeline\<rparr>)) = None \<and>
   timeline (snd (updateStats quiet_env (JObj []) ((init day3 [] [])\<lparr>timeline := full_timeline\<rparr>))) =
     tl full_timeline @ [\<lparr>time = ''2024-01-03T00:00'', count = 1\<rparr>] \<and>
   length (timeline (snd (updateStats quiet_env (JObj []) ((init day3 [] [])\<lparr>timeline := full_timeline\<rparr>)))) \<le> 1440"
proof -
  let ?s = "(init day3 [] [])\<lparr>timeline := full_timeline\<rparr>"
  have len: "length (timeline ?s) = 1440"
    by (simp add: full_timeline_def)
  have ok: "fst (updateStats quiet_env (JObj []) ?s) = None"
    by (simp add: updateStats_def Let_def)
  have "show_nat 1439 \<noteq> ''2024-01-03T00:00''"
    by code_simp
  then have last: "time (last (timeline ?s)) \<noteq> ''2024-01-03T00:00''"
    by (simp add: full_timeline_def last_map)
  have key: "take 16 (stats_iso quiet_env) = ''2024-01-03T00:00''"
    by (simp add: quiet_env_def)
  show ?thesis
    using timeline_bounded [of ?s quiet_env "JObj []"] len ok last key by simp
qed

text \<open>From start-up on, the bound holds after every callback.\<close>

lemma bump_timeline_keeps_bound:
  "length bs \<le> 1440 \<Longrightarrow> length (bump_timeline key bs) \<le> 1440"
  by (simp add: length_bump_timeline)

lemma handler_keeps_bound:
  assumes "length (timeline s) \<le> 1440"
  shows "length (timeline (snd (handler e msg s))) \<le> 1440"
  using assms
  by (simp add: handler_def Let_def timeline_updateStats bump_timeline_keeps_bound
      split: option.splits sum.splits)

lemma step_keeps_bound:
  "length (timeline s) \<le> 1440 \<Longrightarrow> length (timeline (snd (step ev s))) \<le> 1440"
  by (cases ev) (simp_all add: handler_keeps_bound)

lemma run_keeps_bound:
  "length (timeline s) \<le> 1440 \<Longrightarrow> length (timeline (snd (run evs s))) \<le> 1440"
proof (induction evs arbitrary: s)
  case Nil
  then show ?case by simp
next
  case (Cons ev evs)
  then show ?case
    using step_keeps_bound [of s ev] by (simp add: Let_def split: option.splits)
qed

lemma timeline_bound_reachable: "length (timeline (snd (run evs (init d disk0 cs)))) \<le> 1440"
  by (rule run_keeps_bound) (simp add: init_def)

text \<open>
  What \<^verbatim>\<open>GET timeline\<close> answers: the last buckets of the series, in their order, all of them
  when there are at most 120 and the most recent 120 otherwise. The time of the query plays
  no part.
\<close>

lemma get_timeline_last_120:
  "length (get_timeline s) = min 120 (length (timeline s)) \<and> suffix (get_timeline s) (timeline s)"
  by (auto simp: get_timeline_def slice_from_def Let_def suffix_drop)

text \<open>
  C10, on the code. The route cuts by count (\<^verbatim>\<open>timeline.slice(-120)\<close>) where its comment and the
  specification say two hours: a minute without message has no bucket, so a bucket is returned
  however old it is. After one message at 00:00, a query at 03:00 still gets that bucket,
  180 minutes old.
\<close>

theorem get_timeline_old_bucket:
  "get_timeline (snd (updateStats quiet_env (JObj []) (init day3 [] []))) =
     [\<lparr>time = ''2024-01-03T00:00'', count = 1\<rparr>] \<and>
   \<not> within_minutes 120 ''2024-01-03T03:00:10.000Z''
       (get_timeline (snd (updateStats quiet_env (JObj []) (init day3 [] []))))"
proof -
  have a: "get_timeline (snd (updateStats quiet_env (JObj []) (init day3 [] []))) =
      [\<lparr>time = ''2024-01-03T00:00'', count = 1\<rparr>]"
    by (simp add: get_timeline_def slice_from_def updateStats_def Let_def init_def quiet_env_def
        bump_timeline_def)
  have b: "minute_index ''2024-01-03T03:00:10.000Z'' - minute_index ''2024-01-03T00:00'' = 180"
    by (simp add: minute_index_def days_from_civil_def digits_val_def digit_val_def)
  show ?thesis
    by (simp add: a b within_minutes_def)
qed

section \<open>Properties of the listener\<close>

text \<open>
  C6. When the payload does not parse, the listener returns normally after the rotation
  check and the console line: no key is looked up, the unknown-key set, the counters, the
  distinct sets, the frequency tables and the timeline are as before, no subscriber is sent
  anything, and no file has gained a line (a file holds the lines it held, or none when the
  rotation has pruned it).
\<close>

theorem invalid_json_dropped:
  assumes "JSON_parse e (trim msg) = None"
  shows "fst (handler e msg s) = None \<and>
         console (snd (handler e msg s)) = console (rotateIfNeeded e s) @ [InvalidJSON] \<and>
         queries (snd (handler e msg s)) = queries s \<and>
         unknownCache (snd (handler e msg s)) = unknownCache s \<and>
         totalPackets (snd (handler e msg s)) = totalPackets s \<and>
         uniqueHex (snd (handler e msg s)) = uniqueHex s \<and>
         uniqueFlights (snd (handler e msg s)) = uniqueFlights s \<and>
         topOwners (snd (handler e msg s)) = topOwners s \<and>
         topModels (snd (handler e msg s)) = topModels s \<and>
         timeline (snd (handler e msg s)) = timeline s \<and>
         clients (snd (handler e msg s)) = clients s \<and>
         (\<forall>p. lines_at (disk (snd (handler e msg s))) p = lines_at (disk s) p \<or>
              lines_at (disk (snd (handler e msg s))) p = [])"
proof -
  have h: "handler e msg s = (None, say InvalidJSON (rotateIfNeeded e s))"
    using assms by (simp add: handler_def)
  show ?thesis
    using rotateIfNeeded_lines [of e s] by (simp add: h say_def)
qed

theorem invalid_json_dropped_witness:
  \<open>JSON_parse quiet_env (trim ''{"vdl2":'') = None \<and>
   fst (handler quiet_env ''{"vdl2":'' day2_state) = None \<and>
   totalPackets (snd (handler quiet_env ''{"vdl2":'' day2_state)) = 0 \<and>
   timeline (snd (handler quiet_env ''{"vdl2":'' day2_state)) = [] \<and>
   clients (snd (handler quiet_env ''{"vdl2":'' day2_state)) = [\<lparr>readyState = 1, received = []\<rparr>]\<close>
proof -
  have \<open>trim ''{"vdl2":'' = ''{"vdl2":''\<close>
    by (simp add: trim_def js_space_def)
  then have p: \<open>JSON_parse quiet_env (trim ''{"vdl2":'') = None\<close>
    by (simp add: quiet_env_def empty_datagram_def garbage_datagram_def abcdef_datagram_def
        late_datagram_def)
  show ?thesis
    using invalid_json_dropped [OF p, of day2_state] p by (simp add: day2_state_def init_def)
qed





text \<open>
  C1, on the code. A datagram without address (\<^verbatim>\<open>{}\<close>) gets the key 000000: the reference
  table is queried for it, it enters the unknown-key set and the ledger gets a line for it.
  A datagram whose address holds no hexadecimal digit (\<^verbatim>\<open>"zz"\<close>) gets the same key, is
  looked up too, and 000000 enters the set of distinct keys behind \<^verbatim>\<open>uniqueAircraft\<close>.
\<close>

theorem zero_key_not_skipped:
  "queries (snd (handler quiet_env empty_datagram (init day3 [] []))) = [''000000''] \<and>
   unknownCache (snd (handler quiet_env empty_datagram (init day3 [] []))) = {''000000''} \<and>
   lines_at (disk (snd (handler quiet_env empty_datagram (init day3 [] [])))) (ledger_file ''2024-01-03'') =
     [UnknownLine ''2024-01-03T00:00:10.000Z'' ''000000''] \<and>
   queries (snd (handler quiet_env garbage_datagram (init day3 [] []))) = [''000000''] \<and>
   uniqueHex (snd (handler quiet_env garbage_datagram (init day3 [] []))) = {''000000''}"
proof -
  let ?s = "init day3 [] []"
  let ?ts = "''2024-01-03T00:00:10.000Z''"
  let ?s1 = "snd (enrich quiet_env ''000000'' ?s)"
  have hex: "''000000'' \<noteq> []" by simp
  have absent: "stmtLookup_get quiet_env ''000000'' = Some JUndefined" "\<not> truthy JUndefined"
    by (simp_all add: quiet_env_fields)
  have pre: "''000000'' \<notin> unknownCache ?s"
    "\<not> fault quiet_env (AppendFileSync (ledger_file (dateStamp (unknown_date quiet_env))))"
    "\<forall>t. map_of (disk ?s) (ledger_file (dateStamp (unknown_date quiet_env))) \<noteq> Some (Symlink t)"
    by (simp_all add: init_def quiet_env_fields)
  have cache1: "unknownCache ?s1 = {''000000''}"
    using enrich_first_miss(1) [OF hex absent pre] by (simp add: init_def)
  have lines1: "lines_at (disk ?s1) (ledger_file ''2024-01-03'') = [UnknownLine ?ts ''000000'']"
    using enrich_first_miss(2) [OF hex absent pre, of "ledger_file ''2024-01-03''"]
    by (simp add: quiet_env_fields dateStamp_day3 init_def lines_at_def)
  have save: "ledger_file ''2024-01-03'' \<noteq> SAVE_FILE ?s1"
    using in_dir_logPathFor [of "dateStamp day3"] ledger_not_in_LOG_DIR [of "''2024-01-03''"]
    by (auto simp del: in_dir_logPathFor ledger_not_in_LOG_DIR simp: init_def)
  have nolink: "\<forall>t. map_of (disk ?s1) (SAVE_FILE ?s1) \<noteq> Some (Symlink t)"
    by (simp add: enrich_keeps_links) (simp add: init_def)
  have h1: "handler quiet_env empty_datagram ?s =
      (None, broadcast (assemble (JObj []) (fst (enrich quiet_env ''000000'' ?s)) ?ts)
        (snd (updateStats quiet_env (assemble (JObj []) (fst (enrich quiet_env ''000000'' ?s)) ?ts)
          (persist quiet_env (assemble (JObj []) (fst (enrich quiet_env ''000000'' ?s)) ?ts) ?s1))))"
    using handler_parsed [OF parse_datagrams(1) key_datagrams(1) timestamp_no_sec(1), of ?s]
    by (simp add: rotate_same_day)
  have h2: "handler quiet_env garbage_datagram ?s =
      (None, broadcast (assemble garbage_parsed (fst (enrich quiet_env ''000000'' ?s)) ?ts)
        (snd (updateStats quiet_env (assemble garbage_parsed (fst (enrich quiet_env ''000000'' ?s)) ?ts)
          (persist quiet_env (assemble garbage_parsed (fst (enrich quiet_env ''000000'' ?s)) ?ts) ?s1))))"
    using handler_parsed [OF parse_datagrams(2) key_datagrams(2) timestamp_no_sec(2), of ?s]
    by (simp add: rotate_same_day)
  have q: "queries ?s1 = [''000000'']"
    by (simp add: enrich_queries init_def)
  have addr: "get (get (get (vdl2_of garbage_parsed) ''avlc'') ''src'') ''addr'' = JStr ''zz''"
    by (simp add: vdl2_of_def js_or_def garbage_parsed_def)
  have zz: "normalizeHex (JStr ''zz'') = Inr ''000000''"
    by code_simp
  have u: "uniqueHex (snd (handler quiet_env garbage_datagram ?s)) = {''000000''}"
    by (simp add: h2 updateStats_uniqueHex stats_addr addr zz) (simp add: init_def)
  have c1: "queries (snd (handler quiet_env empty_datagram ?s)) = [''000000'']"
    by (simp add: h1 q)
  have c2: "unknownCache (snd (handler quiet_env empty_datagram ?s)) = {''000000''}"
    by (simp add: h1 cache1)
  have c3: "lines_at (disk (snd (handler quiet_env empty_datagram ?s))) (ledger_file ''2024-01-03'') =
      [UnknownLine ?ts ''000000'']"
    using save nolink by (simp add: h1 lines1 persist_lines_elsewhere)
  have c4: "queries (snd (handler quiet_env garbage_datagram ?s)) = [''000000'']"
    by (simp add: h2 q)
  show ?thesis
    using c1 c2 c3 c4 u by (intro conjI)
qed

subsection \<open>The ledger of unknown keys\<close>

lemma ledger_file_inject [simp]: "ledger_file a = ledger_file b \<longleftrightarrow> a = b"
  by (simp add: ledger_file_def path_join_def)







text \<open>
  The part of C7 that holds: an error of the lookup is caught. The message is assembled with
  the empty object as enrichment, counted, and sent to every subscriber that is ready, and the
  key does not enter the unknown-key set.
\<close>

lemma enrich_lookup_error:
  assumes "hex \<noteq> []" "stmtLookup_get e hex = None"
  shows "enrich e hex s = (JObj [], say (DbLookupError hex) (s\<lparr>queries := queries s @ [hex]\<rparr>))"
  using assms by (simp add: enrich_def Let_def)

lemma lookup_error_is_caught:
  assumes parse: "JSON_parse e (trim msg) = Some parsed"
    and key: "normalizeHex (rawHex_of (vdl2_of parsed)) = Inr hex"
    and ts: "timestamp_iso e (vdl2_of parsed) = Inr ts"
    and err: "stmtLookup_get e hex = None"
  shows "fst (handler e msg s) = None"
    and "clients (snd (handler e msg s)) =
           map (\<lambda>c. if readyState c = 1
                     then c\<lparr>received := received c @ [assemble parsed (JObj []) ts]\<rparr> else c) (clients s)"
    and "get (assemble parsed (JObj []) ts) ''db'' = JObj []"
    and "totalPackets (snd (handler e msg s)) = totalPackets s + 1"
    and "unknownCache (snd (handler e msg s)) = unknownCache s"
proof -
  have hex: "hex \<noteq> []"
    using normalizeHex_shape [OF key] by simp
  note en = enrich_lookup_error [OF hex err]
  note h = handler_parsed [OF parse key ts, of s]
  show "fst (handler e msg s) = None"
    by (simp add: h)
  show "clients (snd (handler e msg s)) =
           map (\<lambda>c. if readyState c = 1
                     then c\<lparr>received := received c @ [assemble parsed (JObj []) ts]\<rparr> else c) (clients s)"
    by (simp add: h en broadcast_def)
  show "get (assemble parsed (JObj []) ts) ''db'' = JObj []"
    by (rule get_assemble_db)
  show "totalPackets (snd (handler e msg s)) = totalPackets s + 1"
    by (simp add: h en updateStats_def Let_def split: sum.splits)
  show "unknownCache (snd (handler e msg s)) = unknownCache s"
    by (simp add: h en)
qed

text \<open>
  C7, on the code. The conversion of the event time is outside every \<^verbatim>\<open>try\<close>: a datagram
  whose \<^verbatim>\<open>vdl2.t.sec\<close> is 9000000000000 gives a time value beyond 8.64e15 milliseconds,
  \<^verbatim>\<open>toISOString\<close> throws a \<^verbatim>\<open>RangeError\<close>, and the exception leaves the listener: the message
  is neither counted nor sent, and the datagram after it is not processed.
\<close>

theorem invalid_time_escapes:
  "fst (handler quiet_env late_datagram day3_state) = Some RangeError \<and>
   totalPackets (snd (handler quiet_env late_datagram day3_state)) = 0 \<and>
   clients (snd (handler quiet_env late_datagram day3_state)) = clients day3_state \<and>
   run [Message quiet_env late_datagram, Message quiet_env empty_datagram] day3_state =
     handler quiet_env late_datagram day3_state"
proof -
  have rot: "rotateIfNeeded quiet_env day3_state = day3_state"
    by (simp add: day3_state_def rotate_same_day)
  have h: "handler quiet_env late_datagram day3_state =
      (Some RangeError, snd (enrich quiet_env ''000000'' day3_state))"
    using handler_throws_timestamp [OF parse_datagrams(4) key_datagrams(4) timestamp_late, of day3_state]
    by (simp add: rot)
  have r: "run [Message quiet_env late_datagram, Message quiet_env empty_datagram] day3_state =
      handler quiet_env late_datagram day3_state"
    by (simp add: h Let_def)
  have t: "totalPackets (snd (handler quiet_env late_datagram day3_state)) = 0"
    by (simp add: h) (simp add: day3_state_def init_def)
  have c: "clients (snd (handler quiet_env late_datagram day3_state)) = clients day3_state"
    by (simp add: h)
  have f: "fst (handler quiet_env late_datagram day3_state) = Some RangeError"
    by (simp add: h)
  show ?thesis
    using f t c r by (intro conjI)
qed

section \<open>Properties of the rotation\<close>

lemma logPathFor_inject [simp]: "logPathFor a = logPathFor b \<longleftrightarrow> a = b"
  by (simp add: logPathFor_def)

lemma LATEST_LINK_as_log: "LATEST_LINK = logPathFor ''latest''"
  by (simp add: LATEST_LINK_def logPathFor_def)

lemma midnight_env_fields:
  "dateStamp (rotate_date midnight_env) = ''2024-01-10''"
  "prune_now midnight_env - KEEP_DAYS * 86400000 = 1704240010000"
  "\<forall>op. \<not> fault midnight_env op"
proof -
  have "dateStamp \<lparr>getFullYear = 2024, getMonth = 0, getDate = 10\<rparr> = ''2024-01-10''"
    by code_simp
  then show "dateStamp (rotate_date midnight_env) = ''2024-01-10''"
    by (simp add: midnight_env_def)
  show "prune_now midnight_env - KEEP_DAYS * 86400000 = 1704240010000"
    by (simp add: midnight_env_def KEEP_DAYS_def)
  show "\<forall>op. \<not> fault midnight_env op"
    by (simp add: midnight_env_def quiet_env_def)
qed

lemma day9_state_fields:
  "currentDate day9_state = ''2024-01-09''"
  "disk day9_state = [(logPathFor ''2024-01-03'', File [LogLine (JObj [])]),
                      (logPathFor ''2024-01-04'', File [LogLine (JObj [])])]"
proof -
  have "dateStamp \<lparr>getFullYear = 2024, getMonth = 0, getDate = 9\<rparr> = ''2024-01-09''"
    by code_simp
  then show "currentDate day9_state = ''2024-01-09''"
    by (simp add: day9_state_def init_def)
  show "disk day9_state = [(logPathFor ''2024-01-03'', File [LogLine (JObj [])]),
                      (logPathFor ''2024-01-04'', File [LogLine (JObj [])])]"
    by (simp add: day9_state_def init_def)
qed

lemma old_log_examples:
  "old_log 1704240010000 (logPathFor ''2024-01-03'')"
  "\<not> old_log 1704240010000 (logPathFor ''2024-01-04'')"
  "\<not> old_log 1704240010000 (logPathFor ''2024-01-10'')"
  by code_simp+

lemma midnight_examples:
  "utc_midnight ''2024-01-10'' = Some 1704844800000"
  "utc_midnight ''2024-01-03'' = Some 1704240000000"
  by code_simp+

lemma east_env_fields:
  "dateStamp (rotate_date east_env) = ''2024-01-10''"
  "prune_now east_env - KEEP_DAYS * 86400000 = 1704236410000"
  "\<forall>op. \<not> fault east_env op"
  using midnight_env_fields(1,3) by (simp_all add: east_env_def KEEP_DAYS_def)

lemma east_examples:
  "\<not> old_log 1704236410000 (logPathFor ''2024-01-03'')"
  by code_simp+

text \<open>
  C8, as the code has it. When \<^verbatim>\<open>rotateIfNeeded\<close> runs on a changed date stamp and no
  file-system call fails, the stored day and the current file are those of the new day, that
  file exists (with the lines it had, none when it is new), the alias is a link to it, and
  the files removed are exactly the entries of the log directory named
  \<^verbatim>\<open>received-...YYYY-MM-DD.jsonl\<close> whose date, taken at midnight UTC, lies more than 7 times
  86400000 ms before the instant of the run (\<^verbatim>\<open>Date.now()\<close>); every other path is as before.
\<close>

theorem rotation_switches_links_and_prunes:
  assumes change: "dateStamp (rotate_date e) \<noteq> currentDate s"
    and nofault: "\<forall>op. \<not> fault e op"
    and notlink: "\<forall>t. map_of (disk s) (logPathFor (dateStamp (rotate_date e))) \<noteq> Some (Symlink t)"
  shows "currentDate (rotateIfNeeded e s) = dateStamp (rotate_date e) \<and>
         SAVE_FILE (rotateIfNeeded e s) = logPathFor (dateStamp (rotate_date e)) \<and>
         (\<forall>p. map_of (disk (rotateIfNeeded e s)) p =
            (if old_log (prune_now e - KEEP_DAYS * 86400000) p then None
             else if p = LATEST_LINK then Some (Symlink (logPathFor (dateStamp (rotate_date e))))
             else if p = logPathFor (dateStamp (rotate_date e)) then Some (File (lines_at (disk s) p))
             else map_of (disk s) p))"
  using rotateIfNeeded_exact [OF assms] rotateIfNeeded_dates(1) [of e s] rotateIfNeeded_dates(2) [OF change]
  by simp

theorem rotation_switches_links_and_prunes_witness:
  "dateStamp (rotate_date midnight_env) = ''2024-01-10'' \<and> currentDate day9_state = ''2024-01-09'' \<and>
   SAVE_FILE (rotateIfNeeded midnight_env day9_state) = logPathFor ''2024-01-10'' \<and>
   map_of (disk (rotateIfNeeded midnight_env day9_state)) (logPathFor ''2024-01-10'') = Some (File []) \<and>
   map_of (disk (rotateIfNeeded midnight_env day9_state)) LATEST_LINK = Some (Symlink (logPathFor ''2024-01-10'')) \<and>
   map_of (disk (rotateIfNeeded midnight_env day9_state)) (logPathFor ''2024-01-03'') = None \<and>
   map_of (disk (rotateIfNeeded midnight_env day9_state)) (logPathFor ''2024-01-04'') =
     Some (File [LogLine (JObj [])])"
proof -
  have change: "dateStamp (rotate_date midnight_env) \<noteq> currentDate day9_state"
    by (simp add: midnight_env_fields day9_state_fields)
  have notlink: "\<forall>t. map_of (disk day9_state) (logPathFor (dateStamp (rotate_date midnight_env))) \<noteq> Some (Symlink t)"
    by (simp add: midnight_env_fields day9_state_fields)
  note r = rotation_switches_links_and_prunes [OF change midnight_env_fields(3) notlink]
  have new: "lines_at (disk day9_state) (logPathFor ''2024-01-10'') = []"
    by (simp add: lines_at_def day9_state_fields)
  show ?thesis
    using r new
    by (simp add: midnight_env_fields day9_state_fields old_log_examples
        latest_not_old [unfolded LATEST_LINK_as_log] LATEST_LINK_as_log)
qed

text \<open>
  C8, as stated, fails for the file dated exactly seven days back. The window is measured
  from the instant of the run, not from local midnight, and the date in a file name is taken
  at midnight UTC, though the name was made from the local date. On a UTC host the rotation
  to 2024-01-10 runs ten seconds after midnight: the log of 2024-01-03 does not lie more
  than seven days before that midnight, and it is deleted. On a host one hour east of UTC
  the same rotation, ten seconds after local midnight, keeps the same file.
\<close>

theorem rotation_prunes_boundary_day:
  "utc_midnight ''2024-01-10'' = Some 1704844800000 \<and>
   \<not> older_than_window 1704844800000 ''2024-01-03'' \<and>
   map_of (disk day9_state) (logPathFor ''2024-01-03'') = Some (File [LogLine (JObj [])]) \<and>
   map_of (disk (rotateIfNeeded midnight_env day9_state)) (logPathFor ''2024-01-03'') = None \<and>
   map_of (disk (rotateIfNeeded east_env day9_state)) (logPathFor ''2024-01-03'') =
     Some (File [LogLine (JObj [])])"
proof -
  have change: "dateStamp (rotate_date midnight_env) \<noteq> currentDate day9_state"
    by (simp add: midnight_env_fields day9_state_fields)
  have notlink: "\<forall>t. map_of (disk day9_state) (logPathFor (dateStamp (rotate_date midnight_env))) \<noteq> Some (Symlink t)"
    by (simp add: midnight_env_fields day9_state_fields)
  have gone: "map_of (disk (rotateIfNeeded midnight_env day9_state)) (logPathFor ''2024-01-03'') = None"
    using rotateIfNeeded_exact [OF change midnight_env_fields(3) notlink, of "logPathFor ''2024-01-03''"]
    by (simp add: midnight_env_fields old_log_examples)
  have change': "dateStamp (rotate_date east_env) \<noteq> currentDate day9_state"
    by (simp add: east_env_fields day9_state_fields)
  have notlink': "\<forall>t. map_of (disk day9_state) (logPathFor (dateStamp (rotate_date east_env))) \<noteq> Some (Symlink t)"
    by (simp add: east_env_fields day9_state_fields)
  have kept: "map_of (disk (rotateIfNeeded east_env day9_state)) (logPathFor ''2024-01-03'') =
      Some (File [LogLine (JObj [])])"
    using rotateIfNeeded_exact [OF change' east_env_fields(3) notlink', of "logPathFor ''2024-01-03''"]
    by (simp add: east_env_fields east_examples LATEST_LINK_as_log day9_state_fields)
  have inside: "\<not> older_than_window 1704844800000 ''2024-01-03''"
    by (simp add: older_than_window_def midnight_examples KEEP_DAYS_def)
  show ?thesis
    using gone kept inside by (simp add: midnight_examples day9_state_fields)
qed

section \<open>Properties of the alias\<close>

















end
